theory Spec2Isabelle
  imports Main "HOL-Library.Word"
begin

unbundle bit_operations_syntax

section \<open>The configuration file parser of smcroute (src/src/conf.c)\<close>

text \<open>
  A C string is a \<^typ>\<open>string\<close> without its terminating NUL; a \<open>char *\<close> that may be
  \<open>NULL\<close> is a \<^typ>\<open>string option\<close>. The tokens returned by \<open>pop_token\<close> are
  disjoint pieces of the line buffer, so passing them by value loses nothing.
\<close>

subsection \<open>Characters and the C library\<close>

definition isspace :: "char \<Rightarrow> bool" where
  \<comment> \<open>\<open>isspace\<close> of the C locale: space, \<open>\t \n \v \f \r\<close>.\<close>
  "isspace c = (c = CHR '' '' \<or> ((9::nat) \<le> of_char c \<and> of_char c \<le> (13::nat)))"

definition isdigit :: "char \<Rightarrow> bool" where
  "isdigit c = ((48::nat) \<le> of_char c \<and> of_char c \<le> (57::nat))"

definition digit_val :: "char \<Rightarrow> nat" where
  "digit_val c = of_char c - 48"

definition strchr :: "string \<Rightarrow> char \<Rightarrow> bool" where
  \<comment> \<open>\<open>strchr(s, c) != NULL\<close>\<close>
  "strchr s c = (c \<in> set s)"

fun atoi_digits :: "string \<Rightarrow> int \<Rightarrow> int" where
  "atoi_digits [] acc = acc"
| "atoi_digits (c # cs) acc =
     (if isdigit c then atoi_digits cs (acc * 10 + int (digit_val c)) else acc)"

definition LONG_MAX :: int where
  "LONG_MAX = 9223372036854775807"

definition LONG_MIN :: int where
  "LONG_MIN = - 9223372036854775808"

definition strtol :: "string \<Rightarrow> int" where
  \<comment> \<open>\<open>strtol(s, NULL, 10)\<close> with a 64-bit \<open>long\<close>: optional white space, an optional
      sign, then the longest run of decimal digits (0 when there is none); a value beyond
      the range of \<open>long\<close> gives \<open>LONG_MAX\<close> or \<open>LONG_MIN\<close>\<close>
  "strtol s =
     (let v = (case dropWhile isspace s of
                 [] \<Rightarrow> 0
               | c # cs \<Rightarrow>
                   if c = CHR ''-'' then - atoi_digits cs 0
                   else if c = CHR ''+'' then atoi_digits cs 0
                   else atoi_digits (c # cs) 0)
      in max LONG_MIN (min LONG_MAX v))"

definition int_of_long :: "int \<Rightarrow> int" where
  \<comment> \<open>the conversion of a \<open>long\<close> to the 32-bit \<open>int\<close>: the low 32 bits, read as signed\<close>
  "int_of_long x = (x + 2147483648) mod 4294967296 - 2147483648"

definition atoi :: "string \<Rightarrow> int" where
  \<comment> \<open>\<open>atoi\<close> as the C library has it, \<open>(int) strtol(s, NULL, 10)\<close>: the value is an
      \<open>int\<close>, so a literal beyond its range wraps around\<close>
  "atoi s = int_of_long (strtol s)"

type_synonym in_addr = "32 word"
type_synonym in6_addr = "128 word"

text \<open>
  An IPv4 address is kept as its numeric value (\<open>ntohl(a.s_addr)\<close>); \<open>htonl\<close> is a
  bijection, so the source's comparison with \<open>htonl(INADDR_ANY)\<close> is a comparison of
  the value with 0.
\<close>

definition INADDR_ANY :: in_addr where
  "INADDR_ANY = 0"

definition IN_MULTICAST :: "in_addr \<Rightarrow> bool" where
  \<comment> \<open>\<open>(a & 0xf0000000) == 0xe0000000\<close>\<close>
  "IN_MULTICAST a = (a AND 0xf0000000 = 0xe0000000)"

definition IN6_IS_ADDR_MULTICAST :: "in6_addr \<Rightarrow> bool" where
  \<comment> \<open>the first byte of the address is \<open>0xff\<close>\<close>
  "IN6_IS_ADDR_MULTICAST a = (drop_bit 120 a = 0xff)"

fun inet_pton4_loop :: "string \<Rightarrow> bool \<Rightarrow> nat \<Rightarrow> nat list \<Rightarrow> nat \<Rightarrow> nat list option" where
  \<comment> \<open>the C library's dotted-quad scanner: \<open>octs\<close> are the finished octets, \<open>cur\<close> is
      \<open>*tp\<close>, \<open>saw\<close> is \<open>saw_digit\<close>\<close>
  "inet_pton4_loop [] saw octets octs cur =
     (if octets < 4 then None else Some (octs @ [cur]))"
| "inet_pton4_loop (ch # src) saw octets octs cur =
     (if isdigit ch then
        (let new = cur * 10 + digit_val ch in
         if saw \<and> cur = 0 then None
         else if new > 255 then None
         else if \<not> saw then
           (if octets + 1 > 4 then None
            else inet_pton4_loop src True (octets + 1) octs new)
         else inet_pton4_loop src saw octets octs new)
      else if ch = CHR ''.'' \<and> saw then
        (if octets = 4 then None
         else inet_pton4_loop src False octets (octs @ [cur]) 0)
      else None)"

definition inet_pton4 :: "string \<Rightarrow> in_addr option" where
  \<comment> \<open>\<open>inet_pton(AF_INET, s, &a) > 0\<close> gives \<open>Some a\<close>\<close>
  "inet_pton4 s =
     (case inet_pton4_loop s False 0 [] 0 of
        Some [a, b, c, d] \<Rightarrow> Some (word_of_nat (((a * 256 + b) * 256 + c) * 256 + d))
      | _ \<Rightarrow> None)"

subsection \<open>Tokens\<close>

definition pop_token :: "string option \<Rightarrow> string option \<times> string option" where
  \<comment> \<open>returns the token and the new value of \<open>*line\<close>. A token that runs up to the end
      of the string (\<open>*end == 0\<close>) is not returned.\<close>
  "pop_token line =
     (case line of
        None \<Rightarrow> (None, None)
      | Some s \<Rightarrow>
          (let token = dropWhile isspace s;
               tok = takeWhile (\<lambda>c. \<not> isspace c) token;
               rest = dropWhile (\<lambda>c. \<not> isspace c) token
           in if rest = [] \<or> tok = [] then (None, None)
              else (Some tok, Some (tl rest))))"

definition match :: "string \<Rightarrow> string \<Rightarrow> bool" where
  \<comment> \<open>\<open>!strncmp(keyword, token, strlen(keyword))\<close>: the keyword is a prefix of the token\<close>
  "match keyword token = (take (length keyword) token = keyword)"

subsection \<open>The backend and the log\<close>

text \<open>
  \<open>struct iface\<close>, \<open>struct mroute4\<close> and \<open>struct mroute6\<close> are declared in the headers
  \<open>ifvc.h\<close> and \<open>mroute.h\<close>, which \<open>conf.c\<close> only includes; their fields here are the
  ones \<open>conf.c\<close> reads and writes. \<open>inbound\<close> and \<open>len\<close> are compared with 0 from below
  in \<open>add_mroute\<close>, so they are signed, and they keep the value assigned to them. The TTL
  vector is an array, zeroed by the \<open>memset\<close> and written at interface indices: it is
  kept as the list of the writes, the latest first, and read with \<open>ttl_at\<close>; the size
  of the array is not declared in \<open>conf.c\<close> and is not part of the model.
\<close>

record iface =
  vif :: int
  mif :: int
  threshold :: nat

type_synonym ttl_vector = "(int \<times> nat) list"

definition ttl_at :: "ttl_vector \<Rightarrow> int \<Rightarrow> nat" where
  "ttl_at t i = (case map_of t i of None \<Rightarrow> 0 | Some v \<Rightarrow> v)"

record mroute4 =
  inbound4 :: int
  source4 :: in_addr
  group4 :: in_addr
  len4 :: int
  ttl4 :: ttl_vector

record mroute6 =
  inbound6 :: int
  source6 :: in6_addr
  group6 :: in6_addr
  ttl6 :: ttl_vector

text \<open>
  The calls that leave \<open>conf.c\<close>, named as the source names them, with the arguments
  as \<open>conf.c\<close> passes them. The interface name of a \<open>phyint\<close> line can be \<open>NULL\<close>.
\<close>

datatype call =
    mroute_add_vif "string option" int
  | mroute_del_vif "string option"
  | mcgroup4_join string in_addr in_addr
  | mcgroup6_join string in6_addr
  | mroute4_add mroute4
  | mroute6_add mroute6
  | script_exec

text \<open>The format strings of the \<open>WARN\<close> calls, each with its arguments.\<close>

datatype warning =
    Ignored_IPv6_disabled
  | IPv6_SSM_not_supported
  | Invalid_IPv6_multicast_group string
  | Invalid_IPv4_multicast_source string
  | Invalid_IPv4_multicast_group string
  | Invalid_inbound_IPv6_interface string
  | Invalid_source_IPv6_address string
  | Invalid_outbound_IPv6_interface string
  | Same_outbound_IPv6_interface string string
  | No_valid_outbound_interfaces
  | Invalid_inbound_IPv4_interface string
  | Invalid_source_IPv4_address string
  | GROUP_LEN_not_supported_for_SSM
  | Invalid_prefix_length string int
  | Invalid_outbound_IPv4_interface string
  | Same_outbound_IPv4_interface string string
  | No_valid_outbound_IPv4_interfaces
  | Unknown_command string

datatype level = LOG_NOTICE | LOG_WARNING

datatype message =
    Configuration_file_does_not_exist string
  | Unexpected_error_when_accessing string
  | Continuing_anyway
  | Failed_parsing string

datatype event =
    WARN nat warning  \<comment> \<open>\<open>WARN(fmt, args)\<close> at line \<open>lineno\<close>\<close>
  | Call call
  | smclog level message

text \<open>
  What \<open>conf.c\<close> asks of the interface table and what the backend operations return
  are given by the backend, as it stands when a directive is applied.
\<close>

record backend =
  iface_find_by_name :: "string \<Rightarrow> iface option"
  iface_get_vif_by_name :: "string \<Rightarrow> int"
  iface_get_mif_by_name :: "string \<Rightarrow> int"
  result_of :: "call \<Rightarrow> int"

text \<open>The build: the two configuration macros, and the C library's IPv6 scanner.\<close>

record build =
  HAVE_IPV6_MULTICAST_HOST :: bool
  HAVE_IPV6_MULTICAST_ROUTING :: bool
  inet_pton6 :: "string \<Rightarrow> in6_addr option"

definition ipv6_disabled :: "build \<Rightarrow> bool" where
  \<comment> \<open>\<open>!defined(HAVE_IPV6_MULTICAST_HOST) || !defined(HAVE_IPV6_MULTICAST_ROUTING)\<close>\<close>
  "ipv6_disabled b = (\<not> HAVE_IPV6_MULTICAST_HOST b \<or> \<not> HAVE_IPV6_MULTICAST_ROUTING b)"

definition invoke :: "backend \<Rightarrow> call \<Rightarrow> int \<times> event list" where
  \<comment> \<open>a backend operation: its return value, and the call in the trace\<close>
  "invoke bk c = (result_of bk c, [Call c])"

subsection \<open>Joining a group\<close>

definition join_mgroup4 :: "backend \<Rightarrow> nat \<Rightarrow> string \<Rightarrow> in_addr \<Rightarrow> string \<Rightarrow> int \<times> event list" where
  \<comment> \<open>the IPv4 branch of \<open>join_mgroup\<close> once \<open>src\<close> is set: lines 115 to 120\<close>
  "join_mgroup4 bk lineno ifn src grp =
     (case inet_pton4 grp of
        None \<Rightarrow> (1, [WARN lineno (Invalid_IPv4_multicast_group grp)])
      | Some g \<Rightarrow>
          if \<not> IN_MULTICAST g
          then (1, [WARN lineno (Invalid_IPv4_multicast_group grp)])
          else invoke bk (mcgroup4_join ifn src g))"

definition join_mgroup ::
  "build \<Rightarrow> backend \<Rightarrow> nat \<Rightarrow> string option \<Rightarrow> string option \<Rightarrow> string option
     \<Rightarrow> int \<times> event list" where
  \<comment> \<open>returns the result and what was logged and called. \<open>errno\<close> is not modelled.\<close>
  "join_mgroup b bk lineno ifname src_opt group_opt =
     (case (ifname, group_opt) of
        (Some ifn, Some grp) \<Rightarrow>
          if strchr grp CHR '':'' then
            (if ipv6_disabled b then (0, [WARN lineno Ignored_IPv6_disabled])
             else
               (let w = (if src_opt \<noteq> None then [WARN lineno IPv6_SSM_not_supported] else [])
                in case inet_pton6 b grp of
                     None \<Rightarrow> (1, w @ [WARN lineno (Invalid_IPv6_multicast_group grp)])
                   | Some g \<Rightarrow>
                       if \<not> IN6_IS_ADDR_MULTICAST g
                       then (1, w @ [WARN lineno (Invalid_IPv6_multicast_group grp)])
                       else (let (r, evs) = invoke bk (mcgroup6_join ifn g) in (r, w @ evs))))
          else
            (case src_opt of
               None \<Rightarrow> join_mgroup4 bk lineno ifn 0 grp
             | Some s \<Rightarrow>
                 (case inet_pton4 s of
                    None \<Rightarrow> (1, [WARN lineno (Invalid_IPv4_multicast_source s)])
                  | Some src \<Rightarrow> join_mgroup4 bk lineno ifn src grp))
      | _ \<Rightarrow> (1, []))"

subsection \<open>Adding a multicast route\<close>

text \<open>
  The two loops over the outbound names (lines 161 to 176 for IPv6, 223 to 238 for IPv4)
  differ only in the index they read (\<open>mif\<close> or \<open>vif\<close>) and in the text of their
  warnings; one function, told the family, stands for both.
\<close>

datatype family = AF_INET | AF_INET6

definition index_of :: "family \<Rightarrow> iface \<Rightarrow> int" where
  "index_of fam f = (case fam of AF_INET \<Rightarrow> vif f | AF_INET6 \<Rightarrow> mif f)"

definition Invalid_outbound :: "family \<Rightarrow> string \<Rightarrow> warning" where
  "Invalid_outbound fam name =
     (case fam of AF_INET \<Rightarrow> Invalid_outbound_IPv4_interface name
                | AF_INET6 \<Rightarrow> Invalid_outbound_IPv6_interface name)"

definition Same_outbound :: "family \<Rightarrow> string \<Rightarrow> string \<Rightarrow> warning" where
  "Same_outbound fam name ifn =
     (case fam of AF_INET \<Rightarrow> Same_outbound_IPv4_interface name ifn
                | AF_INET6 \<Rightarrow> Same_outbound_IPv6_interface name ifn)"

fun outbound_loop ::
  "family \<Rightarrow> backend \<Rightarrow> nat \<Rightarrow> string \<Rightarrow> int \<Rightarrow> string list \<Rightarrow> int \<Rightarrow> ttl_vector \<Rightarrow> event list
     \<Rightarrow> int \<times> ttl_vector \<times> event list" where
  \<comment> \<open>\<open>total\<close> (here \<open>tot\<close>), \<open>mroute.ttl\<close> and the log, after the names left in \<open>outbound\<close>\<close>
  "outbound_loop fam bk lineno ifn inb [] tot ttl evs = (tot, ttl, evs)"
| "outbound_loop fam bk lineno ifn inb (name # outbound) tot ttl evs =
     (case iface_find_by_name bk name of
        None \<Rightarrow>
          outbound_loop fam bk lineno ifn inb outbound (tot - 1) ttl
            (evs @ [WARN lineno (Invalid_outbound fam name)])
      | Some f \<Rightarrow>
          if index_of fam f = - 1 then
            outbound_loop fam bk lineno ifn inb outbound (tot - 1) ttl
              (evs @ [WARN lineno (Invalid_outbound fam name)])
          else
            outbound_loop fam bk lineno ifn inb outbound tot
              ((index_of fam f, threshold f) # ttl)
              (evs @ (if index_of fam f = inb
                      then [WARN lineno (Same_outbound fam name ifn)] else [])))"

definition add_mroute6 ::
  "build \<Rightarrow> backend \<Rightarrow> nat \<Rightarrow> string \<Rightarrow> string \<Rightarrow> string option \<Rightarrow> string list
     \<Rightarrow> int \<times> event list" where
  \<comment> \<open>lines 142 to 183, compiled when IPv6 multicast is available\<close>
  "add_mroute6 b bk lineno ifn grp src_opt outbound =
     (let inb = iface_get_mif_by_name bk ifn in
      if inb < 0 then (1, [WARN lineno (Invalid_inbound_IPv6_interface ifn)])
      else
        (case (case src_opt of None \<Rightarrow> None | Some s \<Rightarrow> inet_pton6 b s) of
           None \<Rightarrow>
             (1, [WARN lineno (Invalid_source_IPv6_address
                                 (case src_opt of None \<Rightarrow> ''NONE'' | Some s \<Rightarrow> s))])
         | Some src \<Rightarrow>
             (case inet_pton6 b grp of
                None \<Rightarrow> (1, [WARN lineno (Invalid_IPv6_multicast_group grp)])
              | Some g \<Rightarrow>
                  if \<not> IN6_IS_ADDR_MULTICAST g
                  then (1, [WARN lineno (Invalid_IPv6_multicast_group grp)])
                  else
                    (let (tot, ttl, evs) =
                           outbound_loop AF_INET6 bk lineno ifn inb outbound
                             (int (length outbound)) [] []
                     in if tot = 0
                        then (1, evs @ [WARN lineno No_valid_outbound_interfaces])
                        else (let (r, c) = invoke bk (mroute6_add
                                    \<lparr>inbound6 = inb, source6 = src, group6 = g, ttl6 = ttl\<rparr>)
                              in (r, evs @ c))))))"

definition group_addr :: "string \<Rightarrow> string" where
  \<comment> \<open>\<open>group\<close> after \<open>*ptr++ = 0\<close>: what stands before the first \<open>/\<close>\<close>
  "group_addr grp = takeWhile (\<lambda>c. c \<noteq> CHR ''/'') grp"

definition group_len :: "string \<Rightarrow> string" where
  \<comment> \<open>\<open>ptr\<close> after \<open>*ptr++ = 0\<close>: what stands after the first \<open>/\<close>\<close>
  "group_len grp = tl (dropWhile (\<lambda>c. c \<noteq> CHR ''/'') grp)"

definition add_mroute4_group ::
  "backend \<Rightarrow> nat \<Rightarrow> string \<Rightarrow> int \<Rightarrow> in_addr \<Rightarrow> string \<Rightarrow> string list \<Rightarrow> int \<times> event list" where
  \<comment> \<open>lines 201 to 245: \<open>mroute.inbound\<close> and \<open>mroute.source\<close> are set. The group is cut
      at its first \<open>/\<close>; \<open>mroute.len\<close> stays 0 (the \<open>memset\<close>) without one.\<close>
  "add_mroute4_group bk lineno ifn inb src grp outbound =
     (let ptr = strchr grp CHR ''/'' in
      if ptr \<and> src \<noteq> INADDR_ANY then (1, [WARN lineno GROUP_LEN_not_supported_for_SSM])
      else
        (let g = (if ptr then group_addr grp else grp);
             len = (if ptr then atoi (group_len grp) else 0)
         in if ptr \<and> (len < 0 \<or> len > 32)
            then (1, [WARN lineno (Invalid_prefix_length g len)])
            else
              (case inet_pton4 g of
                 None \<Rightarrow> (1, [WARN lineno (Invalid_IPv4_multicast_group g)])
               | Some ga \<Rightarrow>
                   if \<not> IN_MULTICAST ga
                   then (1, [WARN lineno (Invalid_IPv4_multicast_group g)])
                   else
                     (let (tot, ttl, evs) =
                            outbound_loop AF_INET bk lineno ifn inb outbound
                              (int (length outbound)) [] []
                      in if tot = 0
                         then (1, evs @ [WARN lineno No_valid_outbound_IPv4_interfaces])
                         else (let (r, c) = invoke bk (mroute4_add
                                     \<lparr>inbound4 = inb, source4 = src, group4 = ga,
                                      len4 = len, ttl4 = ttl\<rparr>)
                               in (r, evs @ c))))))"

definition add_mroute4 ::
  "backend \<Rightarrow> nat \<Rightarrow> string \<Rightarrow> string \<Rightarrow> string option \<Rightarrow> string list \<Rightarrow> int \<times> event list" where
  \<comment> \<open>lines 187 to 199, then the rest\<close>
  "add_mroute4 bk lineno ifn grp src_opt outbound =
     (let inb = iface_get_vif_by_name bk ifn in
      if inb < 0 then (1, [WARN lineno (Invalid_inbound_IPv4_interface ifn)])
      else
        (case src_opt of
           None \<Rightarrow> add_mroute4_group bk lineno ifn inb INADDR_ANY grp outbound
         | Some s \<Rightarrow>
             (case inet_pton4 s of
                None \<Rightarrow> (1, [WARN lineno (Invalid_source_IPv4_address s)])
              | Some src \<Rightarrow> add_mroute4_group bk lineno ifn inb src grp outbound)))"

definition add_mroute ::
  "build \<Rightarrow> backend \<Rightarrow> nat \<Rightarrow> string option \<Rightarrow> string option \<Rightarrow> string option \<Rightarrow> string list
     \<Rightarrow> int \<times> event list" where
  \<comment> \<open>\<open>outbound[]\<close> and \<open>num\<close> are one list: \<open>num\<close> is its length, and \<open>conf_parse\<close>
      never passes a null array\<close>
  "add_mroute b bk lineno ifname group_opt src_opt outbound =
     (case (ifname, group_opt) of
        (Some ifn, Some grp) \<Rightarrow>
          if length outbound = 0 then (1, [])
          else if strchr grp CHR '':'' then
            (if ipv6_disabled b then (0, [WARN lineno Ignored_IPv6_disabled])
             else add_mroute6 b bk lineno ifn grp src_opt outbound)
          else add_mroute4 bk lineno ifn grp src_opt outbound
      | _ \<Rightarrow> (1, []))"

subsection \<open>One line of the file\<close>

definition DEFAULT_THRESHOLD :: int where
  \<comment> \<open>Modelled from the spec: the macro \<open>DEFAULT_THRESHOLD\<close> is defined in a header that
      is not among the sources; the default TTL threshold for \<open>phyint\<close> is 1.\<close>
  "DEFAULT_THRESHOLD = 1"

text \<open>
  The variables of the body of the \<open>fgets\<close> loop. \<open>num\<close> is the length of \<open>dest\<close>;
  \<open>warned\<close> collects what the line has logged so far. \<open>dest\<close> is declared
  \<open>char *dest[32]\<close>: a write to \<open>dest[num]\<close> with \<open>num\<close> beyond 31 is outside the array,
  and is the error of the model.
\<close>

record vars =
  op :: nat
  enable :: int
  thresh :: int
  ifname :: "string option"
  source :: "string option"
  grp :: "string option"
  dest :: "string list"
  warned :: "event list"

datatype error = Dest_out_of_bounds

definition left :: "string option \<Rightarrow> nat" where
  \<comment> \<open>what is left of the line, for the termination of the loops\<close>
  "left line = (case line of None \<Rightarrow> 0 | Some s \<Rightarrow> Suc (length s))"

lemma length_dropWhile_tl: "xs \<noteq> [] \<Longrightarrow> length (tl (dropWhile P xs)) < length xs"
proof -
  assume "xs \<noteq> []"
  then have "0 < length xs" by simp
  moreover have "length (dropWhile P xs) \<le> length xs" by (rule length_dropWhile_le)
  moreover have "length (tl (dropWhile P xs)) = length (dropWhile P xs) - 1" by simp
  ultimately show ?thesis by arith
qed

lemma pop_token_left_less: "pop_token line = (Some t, line') \<Longrightarrow> left line' < left line"
proof (cases line)
  case None
  assume "pop_token line = (Some t, line')"
  with None show ?thesis by (simp add: pop_token_def)
next
  case (Some s)
  assume a: "pop_token line = (Some t, line')"
  let ?tok = "dropWhile isspace s"
  from a Some have ne: "dropWhile (\<lambda>c. \<not> isspace c) ?tok \<noteq> []"
    and l: "line' = Some (tl (dropWhile (\<lambda>c. \<not> isspace c) ?tok))"
    by (auto simp: pop_token_def Let_def split: if_splits)
  from ne have "?tok \<noteq> []" by (metis dropWhile.simps(1))
  then have "length (tl (dropWhile (\<lambda>c. \<not> isspace c) ?tok)) < length ?tok"
    by (rule length_dropWhile_tl)
  also have "length ?tok \<le> length s" by (rule length_dropWhile_le)
  finally show ?thesis using Some l by (simp add: left_def)
qed

lemma pop_token_None: "pop_token line = (None, line') \<Longrightarrow> line' = None"
  by (auto simp: pop_token_def Let_def split: option.splits if_splits)

lemma pop_token_left_le: "pop_token line = (r, line') \<Longrightarrow> left line' \<le> left line"
proof (cases r)
  case None
  assume "pop_token line = (r, line')"
  with None have "line' = None" by (simp add: pop_token_None)
  then show ?thesis by (simp add: left_def)
next
  case (Some t)
  assume "pop_token line = (r, line')"
  with Some show ?thesis using pop_token_left_less [of line t line'] by simp
qed

function to_loop :: "string option \<Rightarrow> string list \<Rightarrow> error + (string list \<times> string option)" where
  \<comment> \<open>\<open>while ((dest[num] = pop_token(&line))) num++;\<close> The write comes before the test.\<close>
  "to_loop line dst =
     (if 32 \<le> length dst then Inl Dest_out_of_bounds
      else (case pop_token line of
              (None, line') \<Rightarrow> Inr (dst, line')
            | (Some t, line') \<Rightarrow> to_loop line' (dst @ [t])))"
  by pat_completeness auto
termination
  by (relation "measure (\<lambda>(line, dst). 32 - length dst)") auto

declare to_loop.simps [simp del]

definition verb :: "string \<Rightarrow> string option \<Rightarrow> vars \<Rightarrow> (string option \<times> vars) option" where
  \<comment> \<open>the \<open>if (!op)\<close> block; \<open>None\<close> is its \<open>continue\<close>\<close>
  "verb token line v =
     (if op v = 0 then
        (if match ''mgroup'' token then Some (line, v\<lparr>op := 1\<rparr>)
         else if match ''mroute'' token then Some (line, v\<lparr>op := 2\<rparr>)
         else if match ''phyint'' token then
           (let (t, line') = pop_token line
            in Some (line', v\<lparr>op := (if t = None then 0 else 3), ifname := t\<rparr>))
         else if match ''ssmgroup'' token then Some (line, v\<lparr>op := 1\<rparr>)
         else None)
      else Some (line, v))"

definition operand :: "string \<Rightarrow> string option \<Rightarrow> vars \<Rightarrow> error + (string option \<times> vars)" where
  \<comment> \<open>the chain of keywords, lines 311 to 332\<close>
  "operand token line v =
     (if match ''from'' token then
        (let (t, line') = pop_token line in Inr (line', v\<lparr>ifname := t\<rparr>))
      else if match ''source'' token then
        (let (t, line') = pop_token line in Inr (line', v\<lparr>source := t\<rparr>))
      else if match ''group'' token then
        (let (t, line') = pop_token line in Inr (line', v\<lparr>grp := t\<rparr>))
      else if match ''to'' token then
        (case to_loop line (dest v) of
           Inl e \<Rightarrow> Inl e
         | Inr (dst, line') \<Rightarrow> Inr (line', v\<lparr>dest := dst\<rparr>))
      else if match ''enable'' token then Inr (line, v\<lparr>enable := 1\<rparr>)
      else if match ''disable'' token then Inr (line, v\<lparr>enable := 0\<rparr>)
      else if match ''ttl-threshold'' token then
        (case pop_token line of
           (None, line') \<Rightarrow> Inr (line', v)
         | (Some t, line') \<Rightarrow>
             (let n = atoi t
              in Inr (line', if n \<ge> 1 \<or> n \<le> 255 then v\<lparr>thresh := n\<rparr> else v)))
      else Inr (line, v))"

lemma to_loop_left_le: "to_loop line dst = Inr (dst', line') \<Longrightarrow> left line' \<le> left line"
proof (induction line dst rule: to_loop.induct)
  case (1 line dst)
  show ?case
  proof (cases "pop_token line")
    case (Pair r l)
    show ?thesis
    proof (cases r)
      case None
      with Pair "1.prems" show ?thesis
        by (auto simp: to_loop.simps [of line dst] split: if_splits dest: pop_token_left_le)
    next
      case (Some t)
      with Pair "1.prems" have a: "\<not> 32 \<le> length dst" and b: "to_loop l (dst @ [t]) = Inr (dst', line')"
        by (auto simp: to_loop.simps [of line dst] split: if_splits)
      from "1.IH" [OF a Pair [symmetric] _ b] Some have "left line' \<le> left l" by simp
      with Pair pop_token_left_le show ?thesis by fastforce
    qed
  qed
qed

lemma verb_left_le: "verb token line v = Some (line', v') \<Longrightarrow> left line' \<le> left line"
  by (auto simp: verb_def Let_def split: if_splits prod.splits dest: pop_token_left_le)

lemma operand_left_le: "operand token line v = Inr (line', v') \<Longrightarrow> left line' \<le> left line"
  unfolding operand_def Let_def
  by (auto split: if_splits prod.splits sum.splits option.splits
      dest: pop_token_left_le to_loop_left_le)

function tokens_loop :: "nat \<Rightarrow> string option \<Rightarrow> vars \<Rightarrow> error + vars" where
  \<comment> \<open>\<open>while ((token = pop_token(&line)))\<close>, lines 288 to 333\<close>
  "tokens_loop lineno line v =
     (case pop_token line of
        (None, line1) \<Rightarrow> Inr v
      | (Some token, line1) \<Rightarrow>
          if match ''#'' token then Inr v
          else
            (case verb token line1 v of
               None \<Rightarrow>
                 tokens_loop lineno line1
                   (v\<lparr>warned := warned v @ [WARN lineno (Unknown_command token)]\<rparr>)
             | Some (line2, v2) \<Rightarrow>
                 (case operand token line2 v2 of
                    Inl e \<Rightarrow> Inl e
                  | Inr (line3, v3) \<Rightarrow> tokens_loop lineno line3 v3)))"
  by pat_completeness auto
termination
proof (relation "measure (\<lambda>(lineno, line, v). left line)")
  show "wf (measure (\<lambda>(lineno, line, v). left line))" by simp
next
  fix lineno :: nat and line and v :: vars and x y token
  assume "(x, y) = pop_token line" "x = Some token"
  then have "left y < left line" by (metis pop_token_left_less)
  then show "((lineno, y, v\<lparr>warned := warned v @ [WARN lineno (Unknown_command token)]\<rparr>),
              lineno, line, v) \<in> measure (\<lambda>(lineno, line, v). left line)"
    by simp
next
  fix lineno :: nat and line and v :: vars and x y token z line2 v2 w line3 v3
  assume "(x, y) = pop_token line" "x = Some token" "verb token y v = Some z"
    "(line2, v2) = z" "operand token line2 v2 = Inr w" "(line3, v3) = w"
  then have "left y < left line" "left line2 \<le> left y" "left line3 \<le> left line2"
    by (metis pop_token_left_less, metis verb_left_le, metis operand_left_le)
  then show "((lineno, line3, v3), lineno, line, v) \<in> measure (\<lambda>(lineno, line, v). left line)"
    by simp
qed

declare tokens_loop.simps [simp del]

definition apply_directive :: "build \<Rightarrow> backend \<Rightarrow> nat \<Rightarrow> vars \<Rightarrow> event list" where
  \<comment> \<open>lines 335 to 344; the results of \<open>join_mgroup\<close> and \<open>add_mroute\<close> are dropped\<close>
  "apply_directive b bk lineno v =
     (if op v = 1 then snd (join_mgroup b bk lineno (ifname v) (source v) (grp v))
      else if op v = 2 then snd (add_mroute b bk lineno (ifname v) (grp v) (source v) (dest v))
      else if op v = 3 then
        (if enable v \<noteq> 0 then [Call (mroute_add_vif (ifname v) (thresh v))]
         else [Call (mroute_del_vif (ifname v))])
      else [])"

definition init_vars :: "int \<Rightarrow> vars" where
  \<comment> \<open>the initialisers of lines 280 to 286\<close>
  "init_vars do_vifs =
     \<lparr>op = 0, enable = do_vifs, thresh = DEFAULT_THRESHOLD, ifname = None, source = None,
      grp = None, dest = [], warned = []\<rparr>"

definition conf_line :: "build \<Rightarrow> backend \<Rightarrow> int \<Rightarrow> nat \<Rightarrow> string \<Rightarrow> error + event list" where
  \<comment> \<open>the body of the \<open>fgets\<close> loop for one line: what it logs and calls, in order\<close>
  "conf_line b bk do_vifs lineno line =
     (case tokens_loop lineno (Some line) (init_vars do_vifs) of
        Inl e \<Rightarrow> Inl e
      | Inr v \<Rightarrow> Inr (warned v @ apply_directive b bk lineno v))"

subsection \<open>The file\<close>

definition MAX_LINE_LEN :: nat where
  "MAX_LINE_LEN = 512"

fun fgets :: "nat \<Rightarrow> string \<Rightarrow> string \<times> string" where
  \<comment> \<open>\<open>fgets(buf, n, fp)\<close> on the unread rest of a non-empty stream: at most \<open>n - 1\<close>
      characters, up to and with the first newline; and what stays unread\<close>
  "fgets n [] = ([], [])"
| "fgets n (c # cs) =
     (if n \<le> 1 then ([], c # cs)
      else if c = CHR 0x0A then ([c], cs)
      else (let (buf, rest) = fgets (n - 1) cs in (c # buf, rest)))"

definition cstring :: "string \<Rightarrow> string" where
  \<comment> \<open>the buffer read as a C string: it ends at the first NUL\<close>
  "cstring buf = takeWhile (\<lambda>c. c \<noteq> CHR 0x00) buf"

definition calls_of :: "event list \<Rightarrow> call list" where
  "calls_of evs = concat (map (\<lambda>e. case e of Call c \<Rightarrow> [c] | _ \<Rightarrow> []) evs)"

lemma fgets_rest_less:
  "input \<noteq> [] \<Longrightarrow> 1 < n \<Longrightarrow> length (snd (fgets n input)) < length input"
proof (induction input arbitrary: n)
  case Nil
  then show ?case by simp
next
  case (Cons c cs)
  show ?case
  proof (cases "c = CHR 0x0A")
    case True
    with Cons.prems show ?thesis by simp
  next
    case False
    have "length (snd (fgets (n - 1) cs)) \<le> length cs"
    proof (cases "cs = [] \<or> n - 1 \<le> 1")
      case True
      then show ?thesis by (cases cs) auto
    next
      case False
      then show ?thesis using Cons.IH [of "n - 1"] by simp
    qed
    with False Cons.prems show ?thesis by (simp add: split_def Let_def)
  qed
qed

text \<open>
  The backend is a function of the calls made so far: a directive sees the interface
  table as the earlier directives of the file have left it. \<open>lineno\<close> is an \<open>int\<close> in
  the source and a natural number here (a file of more than \<open>2^31\<close> lines is not
  considered).
\<close>

function conf_lines ::
  "build \<Rightarrow> (call list \<Rightarrow> backend) \<Rightarrow> int \<Rightarrow> string \<Rightarrow> nat \<Rightarrow> event list \<Rightarrow> error + event list" where
  \<comment> \<open>\<open>while ((line = fgets(linebuf, MAX_LINE_LEN, fp)))\<close> on the unread \<open>input\<close>\<close>
  "conf_lines b world do_vifs input lineno trace =
     (if input = [] then Inr trace
      else
        (case conf_line b (world (calls_of trace)) do_vifs lineno
                (cstring (fst (fgets MAX_LINE_LEN input))) of
           Inl e \<Rightarrow> Inl e
         | Inr evs \<Rightarrow>
             conf_lines b world do_vifs (snd (fgets MAX_LINE_LEN input)) (lineno + 1)
               (trace @ evs)))"
  by pat_completeness auto
termination
  by (relation "measure (\<lambda>(b, world, do_vifs, input, lineno, trace). length input)")
     (auto simp: MAX_LINE_LEN_def intro: fgets_rest_less)

declare conf_lines.simps [simp del]

datatype access_result = Access_ok | Access_ENOENT | Access_other_error

record os =
  access_R_OK :: "string \<Rightarrow> access_result"
  fopen_ok :: "string \<Rightarrow> bool"
  malloc_ok :: bool
  contents :: "string \<Rightarrow> string"

definition conf_parse ::
  "build \<Rightarrow> (call list \<Rightarrow> backend) \<Rightarrow> os \<Rightarrow> string \<Rightarrow> int \<Rightarrow> event list
     \<Rightarrow> error + (int \<times> event list)" where
  \<comment> \<open>the return value and the trace\<close>
  "conf_parse b world sys file do_vifs trace =
     (if \<not> fopen_ok sys file then Inr (1, trace)
      else if \<not> malloc_ok sys then Inr (1, trace)
      else (case conf_lines b world do_vifs (contents sys file) 1 trace of
              Inl e \<Rightarrow> Inl e
            | Inr trace' \<Rightarrow> Inr (0, trace')))"

definition conf_read ::
  "build \<Rightarrow> (call list \<Rightarrow> backend) \<Rightarrow> os \<Rightarrow> string \<Rightarrow> int \<Rightarrow> event list \<Rightarrow> error + event list" where
  "conf_read b world sys file do_vifs trace =
     (case access_R_OK sys file of
        Access_ENOENT \<Rightarrow>
          Inr (trace @ [smclog LOG_NOTICE (Configuration_file_does_not_exist file),
                        smclog LOG_NOTICE Continuing_anyway])
      | Access_other_error \<Rightarrow>
          Inr (trace @ [smclog LOG_WARNING (Unexpected_error_when_accessing file),
                        smclog LOG_NOTICE Continuing_anyway])
      | Access_ok \<Rightarrow>
          (case conf_parse b world sys file do_vifs trace of
             Inl e \<Rightarrow> Inl e
           | Inr (r, trace') \<Rightarrow>
               if r \<noteq> 0 then Inr (trace' @ [smclog LOG_WARNING (Failed_parsing file)])
               else Inr (trace' @ [Call script_exec])))"

subsection \<open>The text of the warnings\<close>

fun show_nat :: "nat \<Rightarrow> string" where
  "show_nat n =
     (if n < 10 then [char_of (48 + n)]
      else show_nat (n div 10) @ [char_of (48 + n mod 10)])"

declare show_nat.simps [simp del]

definition show_int :: "int \<Rightarrow> string" where
  \<comment> \<open>\<open>%d\<close>\<close>
  "show_int i = (if i < 0 then CHR ''-'' # show_nat (nat (- i)) else show_nat (nat i))"

definition show_02d :: "nat \<Rightarrow> string" where
  \<comment> \<open>\<open>%02d\<close> of a line number\<close>
  "show_02d n = (if n < 10 then CHR ''0'' # show_nat n else show_nat n)"

fun warning_text :: "warning \<Rightarrow> string" where
  "warning_text Ignored_IPv6_disabled = ''Ignored, IPv6 disabled.''"
| "warning_text IPv6_SSM_not_supported =
     ''IPv6 is not (yet) supported for Source Specific Multicast.''"
| "warning_text (Invalid_IPv6_multicast_group g) = ''Invalid IPv6 multicast group: '' @ g"
| "warning_text (Invalid_IPv4_multicast_source s) = ''Invalid IPv4 multicast source: '' @ s"
| "warning_text (Invalid_IPv4_multicast_group g) = ''Invalid IPv4 multicast group: '' @ g"
| "warning_text (Invalid_inbound_IPv6_interface i) = ''Invalid inbound IPv6 interface: '' @ i"
| "warning_text (Invalid_source_IPv6_address s) = ''Invalid source IPv6 address: '' @ s"
| "warning_text (Invalid_outbound_IPv6_interface i) = ''Invalid outbound IPv6 interface: '' @ i"
| "warning_text (Same_outbound_IPv6_interface out inb) =
     ''Same outbound IPv6 interface ('' @ out @ '') as inbound ('' @ inb @ '')?''"
| "warning_text No_valid_outbound_interfaces =
     ''No valid outbound interfaces, skipping multicast route.''"
| "warning_text (Invalid_inbound_IPv4_interface i) = ''Invalid inbound IPv4 interface: '' @ i"
| "warning_text (Invalid_source_IPv4_address s) = ''Invalid source IPv4 address: '' @ s"
| "warning_text GROUP_LEN_not_supported_for_SSM =
     ''GROUP/LEN not yet supported for source specific multicast.''"
| "warning_text (Invalid_prefix_length g n) =
     ''Invalid prefix length, '' @ g @ ''/'' @ show_int n"
| "warning_text (Invalid_outbound_IPv4_interface i) = ''Invalid outbound IPv4 interface: '' @ i"
| "warning_text (Same_outbound_IPv4_interface out inb) =
     ''Same outbound IPv4 interface ('' @ out @ '') as inbound ('' @ inb @ '')?''"
| "warning_text No_valid_outbound_IPv4_interfaces =
     ''No valid outbound IPv4 interfaces, skipping multicast route.''"
| "warning_text (Unknown_command t) = ''Unknown command '' @ t @ '', skipping.''"

definition WARN_text :: "nat \<Rightarrow> warning \<Rightarrow> string" where
  \<comment> \<open>the macro \<open>WARN\<close>: \<open>"%02d: " fmt\<close> with \<open>lineno\<close>\<close>
  "WARN_text lineno w = show_02d lineno @ '': '' @ warning_text w"

subsection \<open>Notions used to state the properties\<close>

function tokens :: "string option \<Rightarrow> string list" where
  \<comment> \<open>all the tokens that repeated calls of \<open>pop_token\<close> return\<close>
  "tokens line =
     (case pop_token line of
        (None, line') \<Rightarrow> []
      | (Some t, line') \<Rightarrow> t # tokens line')"
  by pat_completeness auto
termination
  by (relation "measure left") (auto intro: pop_token_left_less [OF sym])

declare tokens.simps [simp del]

definition is_verb :: "string \<Rightarrow> bool" where
  "is_verb token =
     (match ''mgroup'' token \<or> match ''mroute'' token \<or> match ''phyint'' token
      \<or> match ''ssmgroup'' token)"


definition resolves :: "family \<Rightarrow> backend \<Rightarrow> string \<Rightarrow> bool" where
  \<comment> \<open>the name is in the interface table, with a virtual interface of the family\<close>
  "resolves fam bk name =
     (case iface_find_by_name bk name of None \<Rightarrow> False | Some f \<Rightarrow> index_of fam f \<noteq> - 1)"

definition resolved :: "family \<Rightarrow> backend \<Rightarrow> string list \<Rightarrow> iface list" where
  \<comment> \<open>the interfaces of the names that resolve, in the order of the names\<close>
  "resolved fam bk names =
     concat (map (\<lambda>name. case iface_find_by_name bk name of
                            None \<Rightarrow> []
                          | Some f \<Rightarrow> if index_of fam f = - 1 then [] else [f]) names)"

definition is_invalid_outbound :: "event \<Rightarrow> bool" where
  "is_invalid_outbound e =
     (case e of
        WARN n (Invalid_outbound_IPv4_interface x) \<Rightarrow> True
      | WARN n (Invalid_outbound_IPv6_interface x) \<Rightarrow> True
      | _ \<Rightarrow> False)"

fun rejection :: "warning \<Rightarrow> bool" where
  \<comment> \<open>the warnings that report a rejected operand\<close>
  "rejection (Invalid_IPv6_multicast_group g) = True"
| "rejection (Invalid_IPv4_multicast_source s) = True"
| "rejection (Invalid_IPv4_multicast_group g) = True"
| "rejection (Invalid_inbound_IPv6_interface i) = True"
| "rejection (Invalid_source_IPv6_address s) = True"
| "rejection No_valid_outbound_interfaces = True"
| "rejection (Invalid_inbound_IPv4_interface i) = True"
| "rejection (Invalid_source_IPv4_address s) = True"
| "rejection GROUP_LEN_not_supported_for_SSM = True"
| "rejection (Invalid_prefix_length g n) = True"
| "rejection No_valid_outbound_IPv4_interfaces = True"
| "rejection w = False"

definition outbound_warnings ::
  "family \<Rightarrow> backend \<Rightarrow> nat \<Rightarrow> string \<Rightarrow> int \<Rightarrow> string list \<Rightarrow> event list" where
  \<comment> \<open>one warning for each name that does not resolve, and one for each that resolves to
      the inbound index, in the order of the names\<close>
  "outbound_warnings fam bk lineno ifn inb names =
     concat (map (\<lambda>name.
       case iface_find_by_name bk name of
         None \<Rightarrow> [WARN lineno (Invalid_outbound fam name)]
       | Some f \<Rightarrow>
           if index_of fam f = - 1 then [WARN lineno (Invalid_outbound fam name)]
           else if index_of fam f = inb then [WARN lineno (Same_outbound fam name ifn)]
           else []) names)"

definition writes :: "family \<Rightarrow> iface list \<Rightarrow> ttl_vector" where
  \<comment> \<open>the writes into the TTL vector for these interfaces, the latest first\<close>
  "writes fam fs = rev (map (\<lambda>f. (index_of fam f, threshold f)) fs)"

definition expected_ttl :: "family \<Rightarrow> iface list \<Rightarrow> int \<Rightarrow> nat" where
  \<comment> \<open>slot \<open>i\<close>: the threshold of the last of the interfaces with index \<open>i\<close>, 0 without one\<close>
  "expected_ttl fam fs i =
     (case filter (\<lambda>f. index_of fam f = i) fs of
        [] \<Rightarrow> 0
      | g # gs \<Rightarrow> threshold (last (g # gs)))"

definition expected_mroute4 ::
  "backend \<Rightarrow> string \<Rightarrow> in_addr \<Rightarrow> in_addr \<Rightarrow> string \<Rightarrow> string list \<Rightarrow> mroute4" where
  \<comment> \<open>the IPv4 route of a directive: the resolved inbound index, the parsed addresses, the
      prefix length, and the writes of the outbound interfaces that resolve\<close>
  "expected_mroute4 bk ifn src ga gstr outbound =
     \<lparr>inbound4 = iface_get_vif_by_name bk ifn, source4 = src, group4 = ga,
      len4 = (if strchr gstr CHR ''/'' then atoi (group_len gstr) else 0),
      ttl4 = writes AF_INET (resolved AF_INET bk outbound)\<rparr>"

definition expected_mroute6 ::
  "backend \<Rightarrow> string \<Rightarrow> in6_addr \<Rightarrow> in6_addr \<Rightarrow> string list \<Rightarrow> mroute6" where
  "expected_mroute6 bk ifn src ga outbound =
     \<lparr>inbound6 = iface_get_mif_by_name bk ifn, source6 = src, group6 = ga,
      ttl6 = writes AF_INET6 (resolved AF_INET6 bk outbound)\<rparr>"

definition mgroup_rejected :: "build \<Rightarrow> string option \<Rightarrow> string \<Rightarrow> bool" where
  \<comment> \<open>an operand of a group directive fails its check: the source or the group is no
      address literal of the family, or the group is no multicast address\<close>
  "mgroup_rejected b src_opt gstr =
     (if strchr gstr CHR '':'' then
        (case inet_pton6 b gstr of None \<Rightarrow> True | Some a \<Rightarrow> \<not> IN6_IS_ADDR_MULTICAST a)
      else
        (case src_opt of None \<Rightarrow> False | Some s \<Rightarrow> inet_pton4 s = None)
        \<or> (case inet_pton4 gstr of None \<Rightarrow> True | Some a \<Rightarrow> \<not> IN_MULTICAST a))"

definition mroute_rejected ::
  "build \<Rightarrow> backend \<Rightarrow> string \<Rightarrow> string option \<Rightarrow> string \<Rightarrow> string list \<Rightarrow> bool" where
  \<comment> \<open>an operand of a route directive fails its check: the inbound interface does not
      resolve, the source or the group is no address literal, the group is no multicast
      address, a prefix comes with a source or has a length outside 0 to 32, or no
      outbound name resolves\<close>
  "mroute_rejected b bk ifn src_opt gstr outbound =
     (if strchr gstr CHR '':'' then
        iface_get_mif_by_name bk ifn < 0
        \<or> (case src_opt of None \<Rightarrow> True | Some s \<Rightarrow> inet_pton6 b s = None)
        \<or> (case inet_pton6 b gstr of None \<Rightarrow> True | Some a \<Rightarrow> \<not> IN6_IS_ADDR_MULTICAST a)
        \<or> filter (resolves AF_INET6 bk) outbound = []
      else
        iface_get_vif_by_name bk ifn < 0
        \<or> (case src_opt of
              None \<Rightarrow> False
            | Some s \<Rightarrow>
                (case inet_pton4 s of
                   None \<Rightarrow> True
                 | Some a \<Rightarrow> strchr gstr CHR ''/'' \<and> a \<noteq> INADDR_ANY))
        \<or> (strchr gstr CHR ''/'' \<and> (atoi (group_len gstr) < 0 \<or> 32 < atoi (group_len gstr)))
        \<or> (case inet_pton4 (group_addr gstr) of None \<Rightarrow> True | Some a \<Rightarrow> \<not> IN_MULTICAST a)
        \<or> filter (resolves AF_INET bk) outbound = [])"

definition directive_call :: "build \<Rightarrow> call \<Rightarrow> bool" where
  \<comment> \<open>the backend operations that applying a directive can reach in this build\<close>
  "directive_call b c =
     (case c of
        mroute_add_vif i t \<Rightarrow> True
      | mroute_del_vif i \<Rightarrow> True
      | mcgroup4_join i s g \<Rightarrow> True
      | mcgroup6_join i g \<Rightarrow> \<not> ipv6_disabled b
      | mroute4_add m \<Rightarrow> True
      | mroute6_add m \<Rightarrow> \<not> ipv6_disabled b
      | script_exec \<Rightarrow> False)"

definition line_event :: "build \<Rightarrow> nat \<Rightarrow> event \<Rightarrow> bool" where
  \<comment> \<open>what a line can log and call: a warning with its line number, or such a call\<close>
  "line_event b lineno e =
     (case e of
        WARN n w \<Rightarrow> n = lineno
      | Call c \<Rightarrow> directive_call b c
      | smclog l m \<Rightarrow> False)"

function file_lines :: "string \<Rightarrow> string list" where
  \<comment> \<open>the lines that \<open>conf_parse\<close> reads from the text of a file: the successive buffers
      of \<open>fgets\<close>, each as a C string\<close>
  "file_lines input =
     (if input = [] then []
      else cstring (fst (fgets MAX_LINE_LEN input)) # file_lines (snd (fgets MAX_LINE_LEN input)))"
  by pat_completeness auto
termination
  by (relation "measure length") (auto simp: MAX_LINE_LEN_def intro: fgets_rest_less)

declare file_lines.simps [simp del]

definition hook_calls :: "event list \<Rightarrow> nat" where
  \<comment> \<open>how often the post-apply hook \<open>script_exec\<close> has run\<close>
  "hook_calls trace = length (filter (\<lambda>e. e = Call script_exec) trace)"

text \<open>An interface table and a build to run the examples on.\<close>

definition example_backend :: backend where
  "example_backend =
     \<lparr>iface_find_by_name = (\<lambda>n.
          if n = ''eth0'' then Some \<lparr>vif = 0, mif = 0, threshold = 1\<rparr>
          else if n = ''eth1'' then Some \<lparr>vif = 1, mif = 1, threshold = 5\<rparr>
          else if n = ''eth2'' then Some \<lparr>vif = 2, mif = 2, threshold = 7\<rparr>
          else if n = ''eth3'' then Some \<lparr>vif = - 1, mif = - 1, threshold = 1\<rparr>
          else None),
      iface_get_vif_by_name = (\<lambda>n.
          if n = ''eth0'' then 0 else if n = ''eth1'' then 1 else if n = ''eth2'' then 2
          else - 1),
      iface_get_mif_by_name = (\<lambda>n.
          if n = ''eth0'' then 0 else if n = ''eth1'' then 1 else if n = ''eth2'' then 2
          else - 1),
      result_of = (\<lambda>c. 0)\<rparr>"

definition example_build :: "bool \<Rightarrow> build" where
  \<comment> \<open>with or without IPv6; the scanner knows the one address \<open>ff02::1\<close> and \<open>2001:db8::1\<close>\<close>
  "example_build v6 =
     \<lparr>HAVE_IPV6_MULTICAST_HOST = v6, HAVE_IPV6_MULTICAST_ROUTING = v6,
      inet_pton6 = (\<lambda>s.
          if s = ''ff02::1'' then Some 0xff020000000000000000000000000001
          else if s = ''2001:db8::1'' then Some 0x20010db8000000000000000000000001
          else None)\<rparr>"

definition example_os :: os where
  \<comment> \<open>a readable file of an unknown command and a \<open>phyint\<close>; a readable file of IPv6
      directives; a file that passes \<open>access\<close> and then fails to open; a file that
      cannot be accessed; every other file is absent\<close>
  "example_os =
     \<lparr>access_R_OK = (\<lambda>f.
          if f = ''smcroute.conf'' \<or> f = ''v6.conf'' \<or> f = ''gone.conf'' then Access_ok
          else if f = ''secret.conf'' then Access_other_error
          else Access_ENOENT),
      fopen_ok = (\<lambda>f. f = ''smcroute.conf'' \<or> f = ''v6.conf''),
      malloc_ok = True,
      contents = (\<lambda>f.
          if f = ''smcroute.conf'' then ''bogus\<newline>phyint eth0 enable\<newline>''
          else if f = ''v6.conf'' then
            ''mgroup from eth0 group ff02::1\<newline>mroute from eth0 group ff02::1 source 2001:db8::1 to eth1\<newline>phyint eth0 enable\<newline>''
          else [])\<rparr>"

section \<open>Lemmas about the loops\<close>

subsection \<open>The loop over the outbound names\<close>

lemma outbound_loop_closed:
  "outbound_loop fam bk lineno ifn inb names tot ttl evs =
     (tot - int (length (filter (\<lambda>n. \<not> resolves fam bk n) names)),
      writes fam (resolved fam bk names) @ ttl,
      evs @ outbound_warnings fam bk lineno ifn inb names)"
proof (induction names arbitrary: tot ttl evs)
  case Nil
  show ?case by (simp add: resolved_def outbound_warnings_def writes_def)
next
  case (Cons name names)
  show ?case
  proof (cases "iface_find_by_name bk name")
    case None
    then show ?thesis
      by (simp add: Cons.IH resolves_def resolved_def outbound_warnings_def writes_def)
  next
    case (Some f)
    then show ?thesis
      by (simp add: Cons.IH resolves_def resolved_def outbound_warnings_def writes_def)
  qed
qed

lemma resolved_length:
  "length (resolved fam bk names) + length (filter (\<lambda>n. \<not> resolves fam bk n) names) = length names"
  by (induction names) (auto simp: resolved_def resolves_def split: option.splits)

lemma calls_of_append [simp]: "calls_of (xs @ ys) = calls_of xs @ calls_of ys"
  by (simp add: calls_of_def)

lemma calls_of_outbound_warnings [simp]: "calls_of (outbound_warnings fam bk lineno ifn inb names) = []"
  by (induction names) (auto simp: outbound_warnings_def calls_of_def split: option.splits)

lemma invalid_outbound_warnings:
  "filter is_invalid_outbound (outbound_warnings fam bk lineno ifn inb names) =
     map (\<lambda>n. WARN lineno (Invalid_outbound fam n)) (filter (\<lambda>n. \<not> resolves fam bk n) names)"
  by (induction names)
     (auto simp: outbound_warnings_def is_invalid_outbound_def Invalid_outbound_def
        Same_outbound_def resolves_def split: family.splits option.splits)

lemma ttl_at_writes: "ttl_at (writes fam fs) i = expected_ttl fam fs i"
proof (induction fs rule: rev_induct)
  case Nil
  show ?case by (simp add: ttl_at_def writes_def expected_ttl_def)
next
  case (snoc f fs)
  then show ?case
    by (auto simp: ttl_at_def writes_def expected_ttl_def split: list.splits option.splits)
qed

lemma expected_ttl_zero: "\<forall>f \<in> set fs. index_of fam f \<noteq> i \<Longrightarrow> expected_ttl fam fs i = 0"
  by (simp add: expected_ttl_def)

lemma expected_ttl_threshold:
  assumes "\<forall>f \<in> set fs. \<forall>g \<in> set fs. index_of fam f = index_of fam g \<longrightarrow> threshold f = threshold g"
    and "f \<in> set fs"
  shows "expected_ttl fam fs (index_of fam f) = threshold f"
proof -
  let ?gs = "filter (\<lambda>g. index_of fam g = index_of fam f) fs"
  from assms(2) have ne: "?gs \<noteq> []" by (auto simp: filter_empty_conv)
  then have "last ?gs \<in> set ?gs" by (rule last_in_set)
  then have "last ?gs \<in> set fs" "index_of fam (last ?gs) = index_of fam f" by auto
  with assms have "threshold (last ?gs) = threshold f" by metis
  with ne show ?thesis by (auto simp: expected_ttl_def split: list.splits)
qed

lemma group_addr_no_prefix: "\<not> strchr gstr CHR ''/'' \<Longrightarrow> group_addr gstr = gstr"
  by (auto simp: strchr_def group_addr_def)

lemma resolved_Nil_iff:
  "(length outbound = length (filter (\<lambda>n. \<not> resolves fam bk n) outbound))
     = (resolved fam bk outbound = [])"
  using resolved_length [of fam bk outbound] by auto

lemma add_mroute4_group_ok:
  assumes pfx: "strchr gstr CHR ''/'' \<longrightarrow>
                 src = INADDR_ANY \<and> 0 \<le> atoi (group_len gstr) \<and> atoi (group_len gstr) \<le> 32"
    and g: "inet_pton4 (group_addr gstr) = Some ga" "IN_MULTICAST ga"
  shows "add_mroute4_group bk lineno ifn inb src gstr outbound =
     (if resolved AF_INET bk outbound = []
      then (1, outbound_warnings AF_INET bk lineno ifn inb outbound
                 @ [WARN lineno No_valid_outbound_IPv4_interfaces])
      else (result_of bk (mroute4_add
              \<lparr>inbound4 = inb, source4 = src, group4 = ga,
               len4 = (if strchr gstr CHR ''/'' then atoi (group_len gstr) else 0),
               ttl4 = writes AF_INET (resolved AF_INET bk outbound)\<rparr>),
            outbound_warnings AF_INET bk lineno ifn inb outbound
              @ [Call (mroute4_add
                   \<lparr>inbound4 = inb, source4 = src, group4 = ga,
                    len4 = (if strchr gstr CHR ''/'' then atoi (group_len gstr) else 0),
                    ttl4 = writes AF_INET (resolved AF_INET bk outbound)\<rparr>)]))"
proof (cases "strchr gstr CHR ''/''")
  case True
  with pfx g show ?thesis
    by (simp add: add_mroute4_group_def outbound_loop_closed resolved_Nil_iff invoke_def)
next
  case False
  with g have "inet_pton4 gstr = Some ga" by (simp add: group_addr_no_prefix)
  with False g show ?thesis
    by (simp add: add_mroute4_group_def outbound_loop_closed resolved_Nil_iff invoke_def)
qed

lemma add_mroute4_ok:
  assumes "0 \<le> iface_get_vif_by_name bk ifn"
    and "case src_opt of None \<Rightarrow> src = INADDR_ANY | Some s \<Rightarrow> inet_pton4 s = Some src"
  shows "add_mroute4 bk lineno ifn gstr src_opt outbound =
           add_mroute4_group bk lineno ifn (iface_get_vif_by_name bk ifn) src gstr outbound"
  using assms by (auto simp: add_mroute4_def Let_def split: option.splits)

lemma add_mroute6_ok:
  assumes "0 \<le> iface_get_mif_by_name bk ifn"
    and "src_opt = Some s" "inet_pton6 b s = Some src"
    and "inet_pton6 b gstr = Some g" "IN6_IS_ADDR_MULTICAST g"
  shows "add_mroute6 b bk lineno ifn gstr src_opt outbound =
     (if resolved AF_INET6 bk outbound = []
      then (1, outbound_warnings AF_INET6 bk lineno ifn (iface_get_mif_by_name bk ifn) outbound
                 @ [WARN lineno No_valid_outbound_interfaces])
      else (result_of bk (mroute6_add
              \<lparr>inbound6 = iface_get_mif_by_name bk ifn, source6 = src, group6 = g,
               ttl6 = writes AF_INET6 (resolved AF_INET6 bk outbound)\<rparr>),
            outbound_warnings AF_INET6 bk lineno ifn (iface_get_mif_by_name bk ifn) outbound
              @ [Call (mroute6_add
                   \<lparr>inbound6 = iface_get_mif_by_name bk ifn, source6 = src, group6 = g,
                    ttl6 = writes AF_INET6 (resolved AF_INET6 bk outbound)\<rparr>)]))"
  using assms
  by (simp add: add_mroute6_def Let_def outbound_loop_closed resolved_Nil_iff invoke_def)

lemma resolved_filter: "length (resolved fam bk names) = length (filter (resolves fam bk) names)"
  by (induction names) (auto simp: resolved_def resolves_def split: option.splits)

subsection \<open>Evaluations on the examples\<close>

lemma ex_pton4_loop: "inet_pton4_loop ''239.1.0.0'' False 0 [] 0 = Some [239, 1, 0, 0]"
  by code_simp

lemma ex_group_addr: "group_addr ''239.1.0.0/16'' = ''239.1.0.0''"
  by (simp add: group_addr_def)

lemma ex_pton4: "inet_pton4 (group_addr ''239.1.0.0/16'') = Some 0xEF010000"
  by (simp only: ex_group_addr inet_pton4_def ex_pton4_loop) simp

lemma ex_atoi: "atoi (group_len ''239.1.0.0/16'') = 16"
  by code_simp

subsection \<open>The warnings of a line\<close>

lemma verb_warned: "verb token line v = Some (line', v') \<Longrightarrow> warned v' = warned v"
  by (auto simp: verb_def Let_def split: if_splits prod.splits)

lemma operand_warned: "operand token line v = Inr (line', v') \<Longrightarrow> warned v' = warned v"
  unfolding operand_def Let_def
  by (auto split: if_splits prod.splits sum.splits option.splits)

lemma tokens_loop_warned:
  "tokens_loop lineno line v = Inr v' \<Longrightarrow>
     \<exists>ts. warned v' = warned v @ map (\<lambda>t. WARN lineno (Unknown_command t)) ts"
proof (induction lineno line v rule: tokens_loop.induct)
  case (1 lineno line v)
  obtain r line1 where pop: "pop_token line = (r, line1)" by (cases "pop_token line")
  show ?case
  proof (cases r)
    case None
    with pop "1.prems" have "v' = v" by (simp add: tokens_loop.simps [of lineno line v])
    then show ?thesis by simp
  next
    case (Some token)
    show ?thesis
    proof (cases "match ''#'' token")
      case True
      with pop Some "1.prems" have "v' = v" by (simp add: tokens_loop.simps [of lineno line v])
      then show ?thesis by simp
    next
      case False
      show ?thesis
      proof (cases "verb token line1 v")
        case None
        let ?v = "v\<lparr>warned := warned v @ [WARN lineno (Unknown_command token)]\<rparr>"
        from pop Some False None "1.prems" have "tokens_loop lineno line1 ?v = Inr v'"
          by (simp add: tokens_loop.simps [of lineno line v])
        from "1.IH"(1) [OF pop [symmetric] Some False None this]
        obtain ts where "warned v' = warned ?v @ map (\<lambda>t. WARN lineno (Unknown_command t)) ts" ..
        then have "warned v' = warned v @ map (\<lambda>t. WARN lineno (Unknown_command t)) (token # ts)"
          by simp
        then show ?thesis ..
      next
        case Some2: (Some p)
        obtain line2 v2 where p: "p = (line2, v2)" by (cases p)
        show ?thesis
        proof (cases "operand token line2 v2")
          case (Inl e)
          with pop Some False Some2 p "1.prems" show ?thesis
            by (simp add: tokens_loop.simps [of lineno line v])
        next
          case (Inr q)
          obtain line3 v3 where q: "q = (line3, v3)" by (cases q)
          from pop Some False Some2 p Inr q "1.prems" have "tokens_loop lineno line3 v3 = Inr v'"
            by (simp add: tokens_loop.simps [of lineno line v])
          from "1.IH"(2) [OF pop [symmetric] Some False Some2 p [symmetric] Inr q [symmetric] this]
          obtain ts where "warned v' = warned v3 @ map (\<lambda>t. WARN lineno (Unknown_command t)) ts" ..
          moreover have "warned v3 = warned v"
            using Some2 p Inr q verb_warned operand_warned by metis
          ultimately show ?thesis by auto
        qed
      qed
    qed
  qed
qed

lemma outbound_warnings_not_rejection:
  "WARN n w \<in> set (outbound_warnings fam bk lineno ifn inb names) \<Longrightarrow> \<not> rejection w"
  by (cases fam; induction names)
     (auto simp: outbound_warnings_def Invalid_outbound_def Same_outbound_def
        split: option.splits if_splits)

lemma calls_of_simps [simp]:
  "calls_of [] = []"
  "calls_of (WARN n w # evs) = calls_of evs"
  "calls_of (Call c # evs) = c # calls_of evs"
  "calls_of (smclog l m # evs) = calls_of evs"
  by (simp_all add: calls_of_def)

lemma join_mgroup_rejection:
  assumes "rejection w" "WARN n w \<in> set (snd (join_mgroup b bk lineno i s g))"
  shows "calls_of (snd (join_mgroup b bk lineno i s g)) = []"
  using assms
  by (auto simp: join_mgroup_def join_mgroup4_def invoke_def Let_def
        split: option.splits if_splits)

lemma add_mroute4_group_rejection:
  assumes "rejection w" "WARN n w \<in> set (snd (add_mroute4_group bk lineno ifn inb src gstr outbound))"
  shows "calls_of (snd (add_mroute4_group bk lineno ifn inb src gstr outbound)) = []"
  using assms
  by (auto simp: add_mroute4_group_def outbound_loop_closed invoke_def Let_def
        split: option.splits if_splits dest: outbound_warnings_not_rejection)

lemma add_mroute4_rejection:
  assumes "rejection w" "WARN n w \<in> set (snd (add_mroute4 bk lineno ifn gstr s outbound))"
  shows "calls_of (snd (add_mroute4 bk lineno ifn gstr s outbound)) = []"
  using assms add_mroute4_group_rejection [OF assms(1)]
  by (auto simp: add_mroute4_def Let_def split: option.splits if_splits)

lemma add_mroute6_rejection:
  assumes "rejection w" "WARN n w \<in> set (snd (add_mroute6 b bk lineno ifn gstr s outbound))"
  shows "calls_of (snd (add_mroute6 b bk lineno ifn gstr s outbound)) = []"
  using assms
  by (auto simp: add_mroute6_def outbound_loop_closed invoke_def Let_def
        split: option.splits if_splits dest: outbound_warnings_not_rejection)

lemma add_mroute_rejection:
  assumes "rejection w" "WARN n w \<in> set (snd (add_mroute b bk lineno i g s outbound))"
  shows "calls_of (snd (add_mroute b bk lineno i g s outbound)) = []"
  using assms add_mroute4_rejection [OF assms(1)] add_mroute6_rejection [OF assms(1)]
  by (auto simp: add_mroute_def split: option.splits if_splits)

lemma apply_directive_rejection:
  assumes "rejection w" "WARN n w \<in> set (apply_directive b bk lineno v)"
  shows "calls_of (apply_directive b bk lineno v) = []"
  using assms join_mgroup_rejection [OF assms(1)] add_mroute_rejection [OF assms(1)]
  by (auto simp: apply_directive_def split: if_splits)

lemma conf_line_rejection:
  assumes "conf_line b bk do_vifs lineno line = Inr evs" "rejection w" "WARN n w \<in> set evs"
  shows "calls_of evs = []"
proof -
  from assms(1) obtain v where v: "tokens_loop lineno (Some line) (init_vars do_vifs) = Inr v"
    and evs: "evs = warned v @ apply_directive b bk lineno v"
    by (auto simp: conf_line_def split: sum.splits)
  from tokens_loop_warned [OF v] obtain ts
    where w: "warned v = map (\<lambda>t. WARN lineno (Unknown_command t)) ts"
    by (auto simp: init_vars_def)
  have "calls_of (warned v) = []" unfolding w by (induction ts) auto
  moreover from assms(2,3) evs w have "WARN n w \<in> set (apply_directive b bk lineno v)" by auto
  ultimately show ?thesis using apply_directive_rejection [OF assms(2)] evs by simp
qed

lemma conf_line_eval:
  "tokens_loop lineno (Some line) (init_vars do_vifs) = Inr v \<Longrightarrow>
     conf_line b bk do_vifs lineno line = Inr (warned v @ apply_directive b bk lineno v)"
  by (simp add: conf_line_def)

lemma ex_pton4_loop_10: "inet_pton4_loop ''10.0.0.1'' False 0 [] 0 = Some [10, 0, 0, 1]"
  by code_simp

lemma ex_pton4_10: "inet_pton4 ''10.0.0.1'' = Some 0x0A000001"
  by (simp only: inet_pton4_def ex_pton4_loop_10) simp

lemma ex_tokens_S7:
  "tokens_loop lineno (Some ''mgroup from eth0 group 10.0.0.1\<newline>'') (init_vars do_vifs) =
     Inr \<lparr>op = 1, enable = do_vifs, thresh = 1, ifname = Some ''eth0'', source = None,
          grp = Some ''10.0.0.1'', dest = [], warned = []\<rparr>"
  by code_simp

lemma outbound_warnings_kinds:
  "e \<in> set (outbound_warnings fam bk lineno ifn inb names) \<Longrightarrow>
     (\<exists>x. e = WARN lineno (Invalid_outbound fam x)) \<or> (\<exists>x. e = WARN lineno (Same_outbound fam x ifn))"
  by (induction names) (auto simp: outbound_warnings_def split: option.splits if_splits)

lemma outbound_warnings_no_GROUP_LEN:
  "WARN n GROUP_LEN_not_supported_for_SSM \<notin> set (outbound_warnings fam bk lineno ifn inb names)"
  by (cases fam) (auto dest!: outbound_warnings_kinds simp: Invalid_outbound_def Same_outbound_def)

lemma add_mroute4_group_wildcard:
  "WARN n GROUP_LEN_not_supported_for_SSM
     \<notin> set (snd (add_mroute4_group bk lineno ifn inb INADDR_ANY gstr outbound))"
  by (auto simp: add_mroute4_group_def outbound_loop_closed invoke_def Let_def
        outbound_warnings_no_GROUP_LEN split: option.splits if_splits)

subsection \<open>Operands that fail their checks\<close>

lemma resolved_Nil_filter:
  "(resolved fam bk outbound = []) = (filter (resolves fam bk) outbound = [])"
  using resolved_filter [of fam bk outbound] by (metis length_0_conv)

lemma join_mgroup_rejected:
  assumes "\<not> ipv6_disabled b \<or> \<not> strchr gstr CHR '':''" "mgroup_rejected b src_opt gstr"
  shows "fst (join_mgroup b bk lineno i_opt src_opt (Some gstr)) = 1
       \<and> calls_of (snd (join_mgroup b bk lineno i_opt src_opt (Some gstr))) = []"
  using assms
  by (auto simp: join_mgroup_def join_mgroup4_def mgroup_rejected_def Let_def
        split: option.splits if_splits)

lemma add_mroute4_group_rejected:
  assumes "(strchr gstr CHR ''/'' \<and> src \<noteq> INADDR_ANY)
      \<or> (strchr gstr CHR ''/'' \<and> (atoi (group_len gstr) < 0 \<or> 32 < atoi (group_len gstr)))
      \<or> (case inet_pton4 (group_addr gstr) of None \<Rightarrow> True | Some a \<Rightarrow> \<not> IN_MULTICAST a)
      \<or> filter (resolves AF_INET bk) outbound = []"
  shows "fst (add_mroute4_group bk lineno ifn inb src gstr outbound) = 1
       \<and> calls_of (snd (add_mroute4_group bk lineno ifn inb src gstr outbound)) = []"
proof (cases "strchr gstr CHR ''/''")
  case True
  with assms show ?thesis
    by (auto simp: add_mroute4_group_def outbound_loop_closed resolved_Nil_iff
          resolved_Nil_filter Let_def split: option.splits)
next
  case False
  then have "group_addr gstr = gstr" by (rule group_addr_no_prefix)
  with False assms show ?thesis
    by (auto simp: add_mroute4_group_def outbound_loop_closed resolved_Nil_iff
          resolved_Nil_filter Let_def split: option.splits)
qed

lemma add_mroute_rejected:
  assumes "\<not> ipv6_disabled b \<or> \<not> strchr gstr CHR '':''"
    and "mroute_rejected b bk ifn src_opt gstr outbound"
  shows "fst (add_mroute b bk lineno (Some ifn) (Some gstr) src_opt outbound) = 1
       \<and> calls_of (snd (add_mroute b bk lineno (Some ifn) (Some gstr) src_opt outbound)) = []"
proof (cases "outbound = []")
  case True
  then show ?thesis by (simp add: add_mroute_def)
next
  case ne: False
  show ?thesis
  proof (cases "strchr gstr CHR '':''")
    case True
    with assms ne show ?thesis
      by (auto simp: add_mroute_def add_mroute6_def mroute_rejected_def outbound_loop_closed
            resolved_Nil_iff resolved_Nil_filter Let_def split: option.splits)
  next
    case False
    show ?thesis
    proof (cases "iface_get_vif_by_name bk ifn < 0")
      case True
      with False ne show ?thesis by (simp add: add_mroute_def add_mroute4_def)
    next
      case inb: False
      show ?thesis
      proof (cases src_opt)
        case None
        with False inb assms(2) show ?thesis
          using add_mroute4_group_rejected
            [of gstr INADDR_ANY bk outbound lineno ifn "iface_get_vif_by_name bk ifn"] ne
          by (simp add: add_mroute_def add_mroute4_def mroute_rejected_def)
      next
        case (Some s)
        show ?thesis
        proof (cases "inet_pton4 s")
          case None
          with Some False inb ne show ?thesis by (simp add: add_mroute_def add_mroute4_def)
        next
          case Some2: (Some a)
          with Some False inb assms(2) show ?thesis
            using add_mroute4_group_rejected
              [of gstr a bk outbound lineno ifn "iface_get_vif_by_name bk ifn"] ne
            by (simp add: add_mroute_def add_mroute4_def mroute_rejected_def)
        qed
      qed
    qed
  qed
qed

subsection \<open>Tokens that are no verbs\<close>

lemma tokens_Some: "pop_token line = (Some t, line') \<Longrightarrow> tokens line = t # tokens line'"
  by (simp add: tokens.simps [of line])

lemma tokens_None: "pop_token line = (None, line') \<Longrightarrow> tokens line = []"
  by (simp add: tokens.simps [of line])

lemma verb_unknown: "op v = 0 \<Longrightarrow> \<not> is_verb token \<Longrightarrow> verb token line v = None"
  by (simp add: verb_def is_verb_def)

lemma tokens_loop_unknown:
  "op v = 0 \<Longrightarrow>
   \<forall>t \<in> set (takeWhile (\<lambda>t. \<not> match ''#'' t) (tokens line)). \<not> is_verb t \<Longrightarrow>
   tokens_loop lineno line v =
     Inr (v\<lparr>warned := warned v @ map (\<lambda>t. WARN lineno (Unknown_command t))
                                     (takeWhile (\<lambda>t. \<not> match ''#'' t) (tokens line))\<rparr>)"
proof (induction lineno line v rule: tokens_loop.induct)
  case (1 lineno line v)
  obtain r line1 where pop: "pop_token line = (r, line1)" by (cases "pop_token line")
  show ?case
  proof (cases r)
    case None
    with pop show ?thesis
      by (simp add: tokens_loop.simps [of lineno line v] tokens_None)
  next
    case (Some token)
    with pop have tk: "tokens line = token # tokens line1" by (simp add: tokens_Some)
    show ?thesis
    proof (cases "match ''#'' token")
      case True
      with pop Some tk show ?thesis
        by (simp add: tokens_loop.simps [of lineno line v])
    next
      case False
      with "1.prems"(2) tk have nv: "\<not> is_verb token"
        and rest: "\<forall>t \<in> set (takeWhile (\<lambda>t. \<not> match ''#'' t) (tokens line1)). \<not> is_verb t"
        by auto
      from nv "1.prems"(1) have vb: "verb token line1 v = None" by (simp add: verb_unknown)
      let ?v = "v\<lparr>warned := warned v @ [WARN lineno (Unknown_command token)]\<rparr>"
      have "op ?v = 0" using "1.prems"(1) by simp
      from "1.IH"(1) [OF pop [symmetric] Some False vb this rest]
      show ?thesis using pop Some False vb tk
        by (simp add: tokens_loop.simps [of lineno line v])
    qed
  qed
qed

lemma first_unknown_warned:
  assumes pop: "pop_token (Some line) = (Some t, rest)" and nc: "\<not> match ''#'' t"
    and nv: "\<not> is_verb t" and run: "conf_line b bk do_vifs lineno line = Inr evs"
  shows "\<exists>evs'. evs = WARN lineno (Unknown_command t) # evs'"
proof -
  let ?v = "(init_vars do_vifs)\<lparr>warned := [WARN lineno (Unknown_command t)]\<rparr>"
  have vb: "verb t rest (init_vars do_vifs) = None"
    using nv by (simp add: verb_unknown init_vars_def)
  have step: "tokens_loop lineno (Some line) (init_vars do_vifs) = tokens_loop lineno rest ?v"
    using pop nc vb by (simp add: tokens_loop.simps [of lineno "Some line"] init_vars_def)
  from run obtain v where v: "tokens_loop lineno (Some line) (init_vars do_vifs) = Inr v"
    and evs: "evs = warned v @ apply_directive b bk lineno v"
    by (auto simp: conf_line_def split: sum.splits)
  from v step have "tokens_loop lineno rest ?v = Inr v" by simp
  from tokens_loop_warned [OF this] obtain ts
    where "warned v = warned ?v @ map (\<lambda>t. WARN lineno (Unknown_command t)) ts" ..
  with evs show ?thesis by simp
qed

lemma ex_tokens_unknown:
  "takeWhile (\<lambda>t. \<not> match ''#'' t) (tokens (Some ''foo bar # phyint eth0\<newline>'')) = [''foo'', ''bar'']"
  by code_simp

lemma ex_pop_unknown:
  "pop_token (Some ''foo bar # phyint eth0\<newline>'') = (Some ''foo'', Some ''bar # phyint eth0\<newline>'')"
  by code_simp

subsection \<open>What a line logs and calls\<close>

lemma line_event_simps [simp]:
  "line_event b lineno (WARN n w) = (n = lineno)"
  "line_event b lineno (Call c) = directive_call b c"
  "line_event b lineno (smclog l m) = False"
  by (simp_all add: line_event_def)

lemma outbound_warnings_line_event:
  "e \<in> set (outbound_warnings fam bk lineno ifn inb names) \<Longrightarrow> line_event b lineno e"
  by (auto dest: outbound_warnings_kinds)

lemma join_mgroup_line_event:
  "e \<in> set (snd (join_mgroup b bk lineno i s g)) \<Longrightarrow> line_event b lineno e"
  by (auto simp: join_mgroup_def join_mgroup4_def invoke_def Let_def directive_call_def
        split: option.splits if_splits)

lemma add_mroute4_line_event:
  "e \<in> set (snd (add_mroute4 bk lineno ifn gstr s outbound)) \<Longrightarrow> line_event b lineno e"
  by (auto simp: add_mroute4_def add_mroute4_group_def outbound_loop_closed invoke_def Let_def
        directive_call_def split: option.splits if_splits dest: outbound_warnings_line_event)

lemma add_mroute6_line_event:
  "\<not> ipv6_disabled b \<Longrightarrow> e \<in> set (snd (add_mroute6 b bk lineno ifn gstr s outbound)) \<Longrightarrow>
     line_event b lineno e"
  by (auto simp: add_mroute6_def outbound_loop_closed invoke_def Let_def
        directive_call_def split: option.splits if_splits dest: outbound_warnings_line_event)

lemma add_mroute_line_event:
  "e \<in> set (snd (add_mroute b bk lineno i g s outbound)) \<Longrightarrow> line_event b lineno e"
  by (auto simp: add_mroute_def split: option.splits if_splits
        dest: add_mroute4_line_event add_mroute6_line_event)

lemma apply_directive_line_event:
  "e \<in> set (apply_directive b bk lineno v) \<Longrightarrow> line_event b lineno e"
  by (auto simp: apply_directive_def directive_call_def split: if_splits
        dest: join_mgroup_line_event add_mroute_line_event)

lemma conf_line_line_event:
  assumes "conf_line b bk do_vifs lineno line = Inr evs" "e \<in> set evs"
  shows "line_event b lineno e"
proof -
  from assms(1) obtain v where v: "tokens_loop lineno (Some line) (init_vars do_vifs) = Inr v"
    and evs: "evs = warned v @ apply_directive b bk lineno v"
    by (auto simp: conf_line_def split: sum.splits)
  from tokens_loop_warned [OF v] obtain ts
    where w: "warned v = map (\<lambda>t. WARN lineno (Unknown_command t)) ts"
    by (auto simp: init_vars_def)
  from assms(2) evs w show ?thesis by (auto dest: apply_directive_line_event)
qed

lemma ex_S7:
  "conf_line b bk do_vifs lineno ''mgroup from eth0 group 10.0.0.1\<newline>'' =
     Inr [WARN lineno (Invalid_IPv4_multicast_group ''10.0.0.1'')]"
proof -
  have "join_mgroup b bk lineno (Some ''eth0'') None (Some ''10.0.0.1'') =
      (1, [WARN lineno (Invalid_IPv4_multicast_group ''10.0.0.1'')])"
    by (simp add: join_mgroup_def join_mgroup4_def strchr_def ex_pton4_10 IN_MULTICAST_def)
  then show ?thesis
    by (simp add: conf_line_eval [OF ex_tokens_S7] apply_directive_def)
qed

subsection \<open>The lines of a file\<close>

lemma tokens_NoneLine [simp]: "tokens None = []"
  by (simp add: tokens.simps [of None] pop_token_def)

lemma pop_token_tokens_le:
  "pop_token line = (r, line') \<Longrightarrow> length (tokens line') \<le> length (tokens line)"
  by (cases r) (auto simp: tokens_Some dest: pop_token_None)

lemma to_loop_total:
  "length dst + length (tokens line) < 32 \<Longrightarrow> to_loop line dst = Inr (dst @ tokens line, None)"
proof (induction line dst rule: to_loop.induct)
  case (1 line dst)
  from "1.prems" have small: "\<not> 32 \<le> length dst" by simp
  obtain r line1 where pop: "pop_token line = (r, line1)" by (cases "pop_token line")
  show ?case
  proof (cases r)
    case None
    with pop small show ?thesis
      by (simp add: to_loop.simps [of line dst] tokens_None pop_token_None)
  next
    case (Some t)
    with pop have tk: "tokens line = t # tokens line1" by (simp add: tokens_Some)
    with "1.prems" have "length (dst @ [t]) + length (tokens line1) < 32" by simp
    from "1.IH" [OF small pop [symmetric] Some this] pop Some small tk show ?thesis
      by (simp add: to_loop.simps [of line dst])
  qed
qed

lemma verb_tokens:
  "verb token line v = Some (line', v') \<Longrightarrow>
     length (tokens line') \<le> length (tokens line) \<and> dest v' = dest v"
  by (auto simp: verb_def Let_def split: if_splits prod.splits dest: pop_token_tokens_le)

lemma operand_total:
  assumes "length (dest v) + length (tokens line) < 32"
  shows "\<exists>line' v'. operand token line v = Inr (line', v')
           \<and> length (dest v') + length (tokens line') \<le> length (dest v) + length (tokens line)"
proof -
  obtain r line1 where pop: "pop_token line = (r, line1)" by (cases "pop_token line")
  then have le: "length (tokens line1) \<le> length (tokens line)" by (rule pop_token_tokens_le)
  from assms have tl: "to_loop line (dest v) = Inr (dest v @ tokens line, None)"
    by (rule to_loop_total)
  show ?thesis
    unfolding operand_def Let_def using pop le tl
    by (cases r) auto
qed

lemma tokens_loop_total:
  "length (dest v) + length (tokens line) \<le> 32 \<Longrightarrow> \<exists>v'. tokens_loop lineno line v = Inr v'"
proof (induction lineno line v rule: tokens_loop.induct)
  case (1 lineno line v)
  obtain r line1 where pop: "pop_token line = (r, line1)" by (cases "pop_token line")
  show ?case
  proof (cases r)
    case None
    with pop show ?thesis by (simp add: tokens_loop.simps [of lineno line v])
  next
    case (Some token)
    with pop have tk: "tokens line = token # tokens line1" by (simp add: tokens_Some)
    with "1.prems" have b1: "length (dest v) + length (tokens line1) < 32" by simp
    show ?thesis
    proof (cases "match ''#'' token")
      case True
      with pop Some show ?thesis by (simp add: tokens_loop.simps [of lineno line v])
    next
      case False
      show ?thesis
      proof (cases "verb token line1 v")
        case None
        let ?v = "v\<lparr>warned := warned v @ [WARN lineno (Unknown_command token)]\<rparr>"
        from b1 have "length (dest ?v) + length (tokens line1) \<le> 32" by simp
        from "1.IH"(1) [OF pop [symmetric] Some False None this]
        show ?thesis using pop Some False None
          by (simp add: tokens_loop.simps [of lineno line v])
      next
        case Some2: (Some p)
        obtain line2 v2 where p: "p = (line2, v2)" by (cases p)
        from Some2 p verb_tokens have "length (tokens line2) \<le> length (tokens line1)"
          and "dest v2 = dest v" by blast+
        with b1 have b2: "length (dest v2) + length (tokens line2) < 32" by simp
        from operand_total [OF b2, of token] obtain line3 v3
          where ok: "operand token line2 v2 = Inr (line3, v3)"
            and b3: "length (dest v3) + length (tokens line3)
                       \<le> length (dest v2) + length (tokens line2)"
          by blast
        from b2 b3 have "length (dest v3) + length (tokens line3) \<le> 32" by simp
        from "1.IH"(2) [OF pop [symmetric] Some False Some2 p [symmetric] ok refl this]
        show ?thesis using pop Some False Some2 p ok
          by (simp add: tokens_loop.simps [of lineno line v])
      qed
    qed
  qed
qed

lemma conf_line_total:
  "length (tokens (Some line)) \<le> 32 \<Longrightarrow> \<exists>evs. conf_line b bk do_vifs lineno line = Inr evs"
  using tokens_loop_total [of "init_vars do_vifs" "Some line" lineno]
  by (auto simp: conf_line_def init_vars_def)

lemma conf_lines_Nil [simp]: "conf_lines b world do_vifs [] lineno trace = Inr trace"
  by (simp add: conf_lines.simps [of _ _ _ "[]"])

lemma conf_lines_total:
  "\<forall>l \<in> set (file_lines input). length (tokens (Some l)) \<le> 32 \<Longrightarrow>
     \<exists>t. conf_lines b world do_vifs input lineno trace = Inr t"
proof (induction b world do_vifs input lineno trace rule: conf_lines.induct)
  case (1 b world do_vifs input lineno trace)
  show ?case
  proof (cases "input = []")
    case True
    then show ?thesis by simp
  next
    case False
    let ?l = "cstring (fst (fgets MAX_LINE_LEN input))"
    let ?rest = "snd (fgets MAX_LINE_LEN input)"
    from False have fl: "file_lines input = ?l # file_lines ?rest"
      by (simp add: file_lines.simps [of input])
    with "1.prems" have "length (tokens (Some ?l)) \<le> 32"
      and rest: "\<forall>l \<in> set (file_lines ?rest). length (tokens (Some l)) \<le> 32" by simp_all
    then obtain evs where evs: "conf_line b (world (calls_of trace)) do_vifs lineno ?l = Inr evs"
      using conf_line_total by blast
    from "1.IH" [OF False evs rest] show ?thesis using False evs
      by (simp add: conf_lines.simps [of _ _ _ input])
  qed
qed

lemma conf_lines_events:
  "conf_lines b world do_vifs input lineno trace = Inr trace' \<Longrightarrow>
     \<exists>new. trace' = trace @ new \<and> (\<forall>e \<in> set new. \<exists>n. line_event b n e)"
proof (induction b world do_vifs input lineno trace rule: conf_lines.induct)
  case (1 b world do_vifs input lineno trace)
  show ?case
  proof (cases "input = []")
    case True
    with "1.prems" show ?thesis by simp
  next
    case False
    let ?l = "cstring (fst (fgets MAX_LINE_LEN input))"
    let ?rest = "snd (fgets MAX_LINE_LEN input)"
    from False "1.prems" obtain evs
      where evs: "conf_line b (world (calls_of trace)) do_vifs lineno ?l = Inr evs"
        and run: "conf_lines b world do_vifs ?rest (lineno + 1) (trace @ evs) = Inr trace'"
      by (auto simp: conf_lines.simps [of _ _ _ input] split: sum.splits)
    from "1.IH" [OF False evs run] obtain new
      where new: "trace' = (trace @ evs) @ new" "\<forall>e \<in> set new. \<exists>n. line_event b n e" by blast
    from evs have "\<forall>e \<in> set evs. line_event b lineno e"
      using conf_line_line_event by blast
    with new have "trace' = trace @ (evs @ new) \<and> (\<forall>e \<in> set (evs @ new). \<exists>n. line_event b n e)"
      by auto
    then show ?thesis by blast
  qed
qed

subsection \<open>The whole file\<close>

lemma ex_file_lines:
  "file_lines (contents example_os ''smcroute.conf'') = [''bogus\<newline>'', ''phyint eth0 enable\<newline>'']"
  by code_simp

lemma ex_file_tokens:
  "\<forall>l \<in> set (file_lines (contents example_os ''smcroute.conf'')). length (tokens (Some l)) \<le> 32"
  by code_simp

lemma ex_conf_lines:
  "conf_lines (example_build False) (\<lambda>calls. example_backend) 0 (contents example_os ''smcroute.conf'') 1 [] =
     Inr [WARN 1 (Unknown_command ''bogus''), Call (mroute_add_vif (Some ''eth0'') 1)]"
  by code_simp

lemma ex_v6_tokens:
  "\<forall>l \<in> set (file_lines (contents example_os ''v6.conf'')). length (tokens (Some l)) \<le> 32"
  by code_simp

lemma ex_v6_lines:
  "conf_lines (example_build False) (\<lambda>calls. example_backend) 0 (contents example_os ''v6.conf'') 1 [] =
     Inr [WARN 1 Ignored_IPv6_disabled, WARN 2 Ignored_IPv6_disabled,
          Call (mroute_add_vif (Some ''eth0'') 1)]"
  by code_simp

lemma conf_parse_events:
  assumes "conf_parse b world sys file do_vifs trace = Inr (r, t)"
  shows "\<exists>new. t = trace @ new \<and> (\<forall>e \<in> set new. \<exists>n. line_event b n e)"
proof (cases "fopen_ok sys file \<and> malloc_ok sys")
  case True
  with assms have "conf_lines b world do_vifs (contents sys file) 1 trace = Inr t"
    by (auto simp: conf_parse_def split: sum.splits)
  then show ?thesis by (rule conf_lines_events)
next
  case False
  with assms have "t = trace" by (auto simp: conf_parse_def split: if_splits)
  then show ?thesis by simp
qed

lemma conf_parse_result:
  "conf_parse b world sys file do_vifs trace = Inr (r, t) \<Longrightarrow>
     r = (if fopen_ok sys file \<and> malloc_ok sys then 0 else 1)"
  by (auto simp: conf_parse_def split: if_splits sum.splits)

lemma conf_parse_total:
  assumes "fopen_ok sys file" "malloc_ok sys"
    and "\<forall>l \<in> set (file_lines (contents sys file)). length (tokens (Some l)) \<le> 32"
  shows "\<exists>t. conf_parse b world sys file do_vifs trace = Inr (0, t)"
proof -
  from conf_lines_total [OF assms(3)] obtain t
    where "conf_lines b world do_vifs (contents sys file) 1 trace = Inr t" by blast
  with assms(1,2) show ?thesis by (simp add: conf_parse_def)
qed

lemma line_event_no_hook: "line_event b n e \<Longrightarrow> e \<noteq> Call script_exec"
  by (auto simp: directive_call_def)

lemma hook_calls_append [simp]: "hook_calls (xs @ ys) = hook_calls xs + hook_calls ys"
  by (simp add: hook_calls_def)

lemma hook_calls_none: "Call script_exec \<notin> set new \<Longrightarrow> hook_calls new = 0"
  by (induction new) (auto simp: hook_calls_def)

lemma ex_conf_parse:
  "conf_parse (example_build False) (\<lambda>calls. example_backend) example_os ''smcroute.conf'' 0 [] =
     Inr (0, [WARN 1 (Unknown_command ''bogus''), Call (mroute_add_vif (Some ''eth0'') 1)])"
  by (simp only: conf_parse_def ex_conf_lines) (simp add: example_os_def)

lemma ex_v6_parse:
  "conf_parse (example_build False) (\<lambda>calls. example_backend) example_os ''v6.conf'' 0 [] =
     Inr (0, [WARN 1 Ignored_IPv6_disabled, WARN 2 Ignored_IPv6_disabled,
              Call (mroute_add_vif (Some ''eth0'') 1)])"
  by (simp only: conf_parse_def ex_v6_lines) (simp add: example_os_def)

subsection \<open>Tokens and keywords\<close>


lemma pop_token_Nil [simp]: "pop_token (Some []) = (None, None)"
  by (simp add: pop_token_def)


lemma match_Nil [simp]: "match [] token"
  by (simp add: match_def)












subsection \<open>Literals beyond the range of int\<close>


lemma ex_group_addr_wraps: "group_addr ''239.1.0.0/4294967312'' = ''239.1.0.0''"
  by (simp add: group_addr_def)

lemma ex_group_len_wraps: "atoi (group_len ''239.1.0.0/4294967312'') = 16"
  by code_simp

lemma ex_pton4_wraps: "inet_pton4 (group_addr ''239.1.0.0/4294967312'') = Some 0xEF010000"
  by (simp only: ex_group_addr_wraps inet_pton4_def ex_pton4_loop) simp

lemma ex_prefix_wraps_not_rejected:
  "\<not> mroute_rejected (example_build False) example_backend ''eth0'' None
       ''239.1.0.0/4294967312'' [''eth1'']"
proof -
  have f: "resolves AF_INET example_backend ''eth1''"
    by (simp add: resolves_def example_backend_def index_of_def)
  have v: "iface_get_vif_by_name example_backend ''eth0'' = 0"
    by (simp add: example_backend_def)
  show ?thesis
    by (simp add: mroute_rejected_def strchr_def v f ex_group_len_wraps ex_pton4_wraps
        IN_MULTICAST_def)
qed

lemma ex_prefix_wraps:
  "add_mroute (example_build False) example_backend 7 (Some ''eth0'')
       (Some ''239.1.0.0/4294967312'') None [''eth1''] =
     (0, [Call (mroute4_add \<lparr>inbound4 = 0, source4 = 0, group4 = 0xEF010000, len4 = 16,
                              ttl4 = [(1, 5)]\<rparr>)])"
proof -
  let ?g = "''239.1.0.0/4294967312''"
  have v: "iface_get_vif_by_name example_backend ''eth0'' = 0"
    by (simp add: example_backend_def)
  have r: "resolved AF_INET example_backend [''eth1''] = [\<lparr>vif = 1, mif = 1, threshold = 5\<rparr>]"
    by (simp add: resolved_def example_backend_def index_of_def)
  have w: "outbound_warnings AF_INET example_backend 7 ''eth0'' 0 [''eth1''] = []"
    by (simp add: outbound_warnings_def example_backend_def index_of_def)
  have res: "\<And>c. result_of example_backend c = 0"
    by (simp add: example_backend_def)
  have p: "strchr ?g CHR ''/'' \<longrightarrow>
      INADDR_ANY = INADDR_ANY \<and> 0 \<le> atoi (group_len ?g) \<and> atoi (group_len ?g) \<le> 32"
    by (simp add: ex_group_len_wraps)
  have m: "IN_MULTICAST 0xEF010000" by (simp add: IN_MULTICAST_def)
  have s: "strchr ?g CHR ''/''" and c: "\<not> strchr ?g CHR '':''" by (simp_all add: strchr_def)
  have "add_mroute (example_build False) example_backend 7 (Some ''eth0'') (Some ?g) None [''eth1'']
      = add_mroute4 example_backend 7 ''eth0'' ?g None [''eth1'']"
    using c by (simp add: add_mroute_def)
  also have "\<dots> = add_mroute4_group example_backend 7 ''eth0'' 0 INADDR_ANY ?g [''eth1'']"
    by (simp add: add_mroute4_def v)
  also have "\<dots> = (0, [Call (mroute4_add \<lparr>inbound4 = 0, source4 = 0, group4 = 0xEF010000,
                               len4 = 16, ttl4 = [(1, 5)]\<rparr>)])"
    unfolding add_mroute4_group_ok [OF p ex_pton4_wraps m]
    by (simp only: r w res s ex_group_len_wraps) (simp add: writes_def index_of_def INADDR_ANY_def)
  finally show ?thesis .
qed


lemma ex_ttl_wraps:
  "conf_line b bk do_vifs lineno ''phyint eth0 enable ttl-threshold 4294967297\<newline>'' =
     Inr [Call (mroute_add_vif (Some ''eth0'') 1)]"
  by code_simp

section \<open>Properties\<close>

subsection \<open>The outbound interfaces of a route\<close>

text \<open>
  C1. An \<open>mroute\<close> directive whose operands parse and whose inbound interface resolves,
  with \<open>K\<close> outbound names that resolve (\<open>filter (resolves fam bk) outbound\<close>) and \<open>M\<close>
  that do not: when \<open>K = 0\<close> the result is 1, after the \<open>M\<close> per-name warnings and the
  warning that no outbound interface is valid, and nothing is called; otherwise the only
  call is one \<open>mroute4_add\<close> (IPv4) or \<open>mroute6_add\<close> (IPv6, when compiled in) of the
  expected route, after the same per-name warnings. The warnings of the loop hold no
  call, and those about invalid names are exactly the \<open>M\<close> names that do not resolve;
  \<open>K + M\<close> is the number of names. The TTL vector of the route reads, at every slot,
  the threshold of the last resolved interface with that index and 0 where there is
  none; when interfaces that share an index share the threshold (as in an interface
  table, where an index belongs to one interface), every resolved interface finds its
  own threshold in its slot.
\<close>

theorem mroute_outbound_interfaces:
  "(\<not> strchr gstr CHR '':'' \<and> 0 \<le> iface_get_vif_by_name bk ifn
      \<and> (case src_opt of None \<Rightarrow> src = INADDR_ANY | Some s \<Rightarrow> inet_pton4 s = Some src)
      \<and> (strchr gstr CHR ''/'' \<longrightarrow>
           src = INADDR_ANY \<and> 0 \<le> atoi (group_len gstr) \<and> atoi (group_len gstr) \<le> 32)
      \<and> inet_pton4 (group_addr gstr) = Some ga \<and> IN_MULTICAST ga \<and> outbound \<noteq> []
    \<longrightarrow> add_mroute b bk lineno (Some ifn) (Some gstr) src_opt outbound =
          (if length (filter (resolves AF_INET bk) outbound) = 0
           then (1, outbound_warnings AF_INET bk lineno ifn (iface_get_vif_by_name bk ifn) outbound
                      @ [WARN lineno No_valid_outbound_IPv4_interfaces])
           else (result_of bk (mroute4_add (expected_mroute4 bk ifn src ga gstr outbound)),
                 outbound_warnings AF_INET bk lineno ifn (iface_get_vif_by_name bk ifn) outbound
                   @ [Call (mroute4_add (expected_mroute4 bk ifn src ga gstr outbound))])))
   \<and> (strchr gstr CHR '':'' \<and> \<not> ipv6_disabled b \<and> 0 \<le> iface_get_mif_by_name bk ifn
      \<and> inet_pton6 b six_s = Some six_src \<and> inet_pton6 b gstr = Some six_ga
      \<and> IN6_IS_ADDR_MULTICAST six_ga \<and> outbound \<noteq> []
    \<longrightarrow> add_mroute b bk lineno (Some ifn) (Some gstr) (Some six_s) outbound =
          (if length (filter (resolves AF_INET6 bk) outbound) = 0
           then (1, outbound_warnings AF_INET6 bk lineno ifn (iface_get_mif_by_name bk ifn) outbound
                      @ [WARN lineno No_valid_outbound_interfaces])
           else (result_of bk (mroute6_add (expected_mroute6 bk ifn six_src six_ga outbound)),
                 outbound_warnings AF_INET6 bk lineno ifn (iface_get_mif_by_name bk ifn) outbound
                   @ [Call (mroute6_add (expected_mroute6 bk ifn six_src six_ga outbound))])))
   \<and> calls_of (outbound_warnings fam bk lineno ifn inb outbound) = []
   \<and> filter is_invalid_outbound (outbound_warnings fam bk lineno ifn inb outbound) =
       map (\<lambda>n. WARN lineno (Invalid_outbound fam n)) (filter (\<lambda>n. \<not> resolves fam bk n) outbound)
   \<and> length (filter (resolves fam bk) outbound)
       + length (filter (\<lambda>n. \<not> resolves fam bk n) outbound) = length outbound
   \<and> length (resolved fam bk outbound) = length (filter (resolves fam bk) outbound)
   \<and> ttl_at (writes fam (resolved fam bk outbound)) i = expected_ttl fam (resolved fam bk outbound) i
   \<and> ((\<forall>f \<in> set (resolved fam bk outbound). index_of fam f \<noteq> i)
        \<longrightarrow> ttl_at (writes fam (resolved fam bk outbound)) i = 0)
   \<and> ((\<forall>f \<in> set (resolved fam bk outbound). \<forall>g \<in> set (resolved fam bk outbound).
          index_of fam f = index_of fam g \<longrightarrow> threshold f = threshold g)
        \<longrightarrow> (\<forall>f \<in> set (resolved fam bk outbound).
              ttl_at (writes fam (resolved fam bk outbound)) (index_of fam f) = threshold f))"
proof -
  have nil: "\<And>fam. (filter (resolves fam bk) outbound = []) = (resolved fam bk outbound = [])"
    using resolved_filter [of _ bk outbound] by (metis length_0_conv)
  have v4: "add_mroute b bk lineno (Some ifn) (Some gstr) src_opt outbound =
          (if length (filter (resolves AF_INET bk) outbound) = 0
           then (1, outbound_warnings AF_INET bk lineno ifn (iface_get_vif_by_name bk ifn) outbound
                      @ [WARN lineno No_valid_outbound_IPv4_interfaces])
           else (result_of bk (mroute4_add (expected_mroute4 bk ifn src ga gstr outbound)),
                 outbound_warnings AF_INET bk lineno ifn (iface_get_vif_by_name bk ifn) outbound
                   @ [Call (mroute4_add (expected_mroute4 bk ifn src ga gstr outbound))]))"
    if h: "\<not> strchr gstr CHR '':''" "0 \<le> iface_get_vif_by_name bk ifn"
      "case src_opt of None \<Rightarrow> src = INADDR_ANY | Some s \<Rightarrow> inet_pton4 s = Some src"
      "strchr gstr CHR ''/'' \<longrightarrow>
           src = INADDR_ANY \<and> 0 \<le> atoi (group_len gstr) \<and> atoi (group_len gstr) \<le> 32"
      "inet_pton4 (group_addr gstr) = Some ga" "IN_MULTICAST ga" "outbound \<noteq> []"
  proof -
    have "add_mroute b bk lineno (Some ifn) (Some gstr) src_opt outbound =
            add_mroute4 bk lineno ifn gstr src_opt outbound"
      using h(1,7) by (simp add: add_mroute_def)
    also have "\<dots> = add_mroute4_group bk lineno ifn (iface_get_vif_by_name bk ifn) src gstr outbound"
      using h(2,3) by (rule add_mroute4_ok)
    finally show ?thesis
      using add_mroute4_group_ok [OF h(4,5,6)] by (simp add: nil expected_mroute4_def)
  qed
  have v6: "add_mroute b bk lineno (Some ifn) (Some gstr) (Some six_s) outbound =
          (if length (filter (resolves AF_INET6 bk) outbound) = 0
           then (1, outbound_warnings AF_INET6 bk lineno ifn (iface_get_mif_by_name bk ifn) outbound
                      @ [WARN lineno No_valid_outbound_interfaces])
           else (result_of bk (mroute6_add (expected_mroute6 bk ifn six_src six_ga outbound)),
                 outbound_warnings AF_INET6 bk lineno ifn (iface_get_mif_by_name bk ifn) outbound
                   @ [Call (mroute6_add (expected_mroute6 bk ifn six_src six_ga outbound))]))"
    if h: "strchr gstr CHR '':''" "\<not> ipv6_disabled b" "0 \<le> iface_get_mif_by_name bk ifn"
      "inet_pton6 b six_s = Some six_src" "inet_pton6 b gstr = Some six_ga"
      "IN6_IS_ADDR_MULTICAST six_ga" "outbound \<noteq> []"
  proof -
    have "add_mroute b bk lineno (Some ifn) (Some gstr) (Some six_s) outbound =
            add_mroute6 b bk lineno ifn gstr (Some six_s) outbound"
      using h(1,2,7) by (simp add: add_mroute_def)
    then show ?thesis
      using add_mroute6_ok [OF h(3) refl h(4,5,6)] by (simp add: nil expected_mroute6_def)
  qed
  have p1: "\<not> strchr gstr CHR '':'' \<and> 0 \<le> iface_get_vif_by_name bk ifn
      \<and> (case src_opt of None \<Rightarrow> src = INADDR_ANY | Some s \<Rightarrow> inet_pton4 s = Some src)
      \<and> (strchr gstr CHR ''/'' \<longrightarrow>
           src = INADDR_ANY \<and> 0 \<le> atoi (group_len gstr) \<and> atoi (group_len gstr) \<le> 32)
      \<and> inet_pton4 (group_addr gstr) = Some ga \<and> IN_MULTICAST ga \<and> outbound \<noteq> []
    \<longrightarrow> add_mroute b bk lineno (Some ifn) (Some gstr) src_opt outbound =
          (if length (filter (resolves AF_INET bk) outbound) = 0
           then (1, outbound_warnings AF_INET bk lineno ifn (iface_get_vif_by_name bk ifn) outbound
                      @ [WARN lineno No_valid_outbound_IPv4_interfaces])
           else (result_of bk (mroute4_add (expected_mroute4 bk ifn src ga gstr outbound)),
                 outbound_warnings AF_INET bk lineno ifn (iface_get_vif_by_name bk ifn) outbound
                   @ [Call (mroute4_add (expected_mroute4 bk ifn src ga gstr outbound))]))"
    by (intro impI) (elim conjE, rule v4, assumption+)
  have p2: "strchr gstr CHR '':'' \<and> \<not> ipv6_disabled b \<and> 0 \<le> iface_get_mif_by_name bk ifn
      \<and> inet_pton6 b six_s = Some six_src \<and> inet_pton6 b gstr = Some six_ga
      \<and> IN6_IS_ADDR_MULTICAST six_ga \<and> outbound \<noteq> []
    \<longrightarrow> add_mroute b bk lineno (Some ifn) (Some gstr) (Some six_s) outbound =
          (if length (filter (resolves AF_INET6 bk) outbound) = 0
           then (1, outbound_warnings AF_INET6 bk lineno ifn (iface_get_mif_by_name bk ifn) outbound
                      @ [WARN lineno No_valid_outbound_interfaces])
           else (result_of bk (mroute6_add (expected_mroute6 bk ifn six_src six_ga outbound)),
                 outbound_warnings AF_INET6 bk lineno ifn (iface_get_mif_by_name bk ifn) outbound
                   @ [Call (mroute6_add (expected_mroute6 bk ifn six_src six_ga outbound))]))"
    by (intro impI) (elim conjE, rule v6, assumption+)
  have p5: "length (filter (resolves fam bk) outbound)
       + length (filter (\<lambda>n. \<not> resolves fam bk n) outbound) = length outbound"
    by (rule sum_length_filter_compl)
  have p8: "(\<forall>f \<in> set (resolved fam bk outbound). index_of fam f \<noteq> i)
        \<longrightarrow> ttl_at (writes fam (resolved fam bk outbound)) i = 0"
    by (simp add: ttl_at_writes expected_ttl_zero)
  have p9: "(\<forall>f \<in> set (resolved fam bk outbound). \<forall>g \<in> set (resolved fam bk outbound).
          index_of fam f = index_of fam g \<longrightarrow> threshold f = threshold g)
        \<longrightarrow> (\<forall>f \<in> set (resolved fam bk outbound).
              ttl_at (writes fam (resolved fam bk outbound)) (index_of fam f) = threshold f)"
    unfolding ttl_at_writes by (intro impI ballI) (rule expected_ttl_threshold)
  show ?thesis
    by (intro conjI)
       (rule p1 p2 calls_of_outbound_warnings invalid_outbound_warnings p5 resolved_filter
          ttl_at_writes p8 p9)+
qed


theorem mroute_outbound_interfaces_witness:
  "add_mroute (example_build True) example_backend 7 (Some ''eth0'') (Some ''239.1.0.0/16'') None
       [''eth1'', ''eth3'', ''nope'', ''eth2''] =
     (0, [WARN 7 (Invalid_outbound_IPv4_interface ''eth3''),
          WARN 7 (Invalid_outbound_IPv4_interface ''nope''),
          Call (mroute4_add \<lparr>inbound4 = 0, source4 = 0, group4 = 0xEF010000, len4 = 16,
                              ttl4 = [(2, 7), (1, 5)]\<rparr>)])
   \<and> add_mroute (example_build True) example_backend 7 (Some ''eth0'') (Some ''ff02::1'')
       (Some ''2001:db8::1'') [''nope'', ''eth1''] =
     (0, [WARN 7 (Invalid_outbound_IPv6_interface ''nope''),
          Call (mroute6_add \<lparr>inbound6 = 0, source6 = 0x20010db8000000000000000000000001,
                              group6 = 0xff020000000000000000000000000001,
                              ttl6 = [(1, 5)]\<rparr>)])
   \<and> ttl_at (writes AF_INET (resolved AF_INET example_backend [''eth1'', ''eth3'', ''nope'', ''eth2''])) 2 = 7
   \<and> ttl_at (writes AF_INET (resolved AF_INET example_backend [''eth1'', ''eth3'', ''nope'', ''eth2''])) 0 = 0"
proof -
  let ?out = "[''eth1'', ''eth3'', ''nope'', ''eth2'']"
  let ?f1 = "\<lparr>vif = 1, mif = 1, threshold = 5\<rparr>"
  let ?f2 = "\<lparr>vif = 2, mif = 2, threshold = 7\<rparr>"
  note T4 = mroute_outbound_interfaces [where gstr = "''239.1.0.0/16''" and bk = example_backend
      and ifn = "''eth0''" and src_opt = None and src = 0 and ga = "0xEF010000" and outbound = ?out
      and b = "example_build True" and lineno = 7 and fam = AF_INET and i = 0]
  note T6 = mroute_outbound_interfaces [where gstr = "''ff02::1''" and bk = example_backend
      and ifn = "''eth0''" and six_s = "''2001:db8::1''" and six_src = "0x20010db8000000000000000000000001"
      and six_ga = "0xff020000000000000000000000000001" and outbound = "[''nope'', ''eth1'']"
      and b = "example_build True" and lineno = 7]
  have r4: "resolved AF_INET example_backend ?out = [?f1, ?f2]"
    by (simp add: resolved_def example_backend_def index_of_def)
  have f4: "filter (resolves AF_INET example_backend) ?out = [''eth1'', ''eth2'']"
    by (simp add: resolves_def example_backend_def index_of_def)
  have w4: "outbound_warnings AF_INET example_backend 7 ''eth0'' 0 ?out =
      [WARN 7 (Invalid_outbound_IPv4_interface ''eth3''),
       WARN 7 (Invalid_outbound_IPv4_interface ''nope'')]"
    by (simp add: outbound_warnings_def example_backend_def index_of_def Invalid_outbound_def)
  have h4: "\<not> strchr ''239.1.0.0/16'' CHR '':'' \<and> 0 \<le> iface_get_vif_by_name example_backend ''eth0''
      \<and> (case None of None \<Rightarrow> (0::in_addr) = INADDR_ANY | Some s \<Rightarrow> inet_pton4 s = Some 0)
      \<and> (strchr ''239.1.0.0/16'' CHR ''/'' \<longrightarrow>
           (0::in_addr) = INADDR_ANY \<and> 0 \<le> atoi (group_len ''239.1.0.0/16'')
           \<and> atoi (group_len ''239.1.0.0/16'') \<le> 32)
      \<and> inet_pton4 (group_addr ''239.1.0.0/16'') = Some 0xEF010000 \<and> IN_MULTICAST 0xEF010000
      \<and> ?out \<noteq> []"
    by (simp add: strchr_def example_backend_def INADDR_ANY_def ex_atoi ex_pton4 IN_MULTICAST_def)
  have a4: "add_mroute (example_build True) example_backend 7 (Some ''eth0'') (Some ''239.1.0.0/16'') None
       ?out =
     (0, [WARN 7 (Invalid_outbound_IPv4_interface ''eth3''),
          WARN 7 (Invalid_outbound_IPv4_interface ''nope''),
          Call (mroute4_add \<lparr>inbound4 = 0, source4 = 0, group4 = 0xEF010000, len4 = 16,
                              ttl4 = [(2, 7), (1, 5)]\<rparr>)])"
  proof -
    have e: "expected_mroute4 example_backend ''eth0'' 0 0xEF010000 ''239.1.0.0/16'' ?out =
        \<lparr>inbound4 = 0, source4 = 0, group4 = 0xEF010000, len4 = 16, ttl4 = [(2, 7), (1, 5)]\<rparr>"
      by (simp add: expected_mroute4_def r4 writes_def index_of_def ex_atoi strchr_def)
         (simp add: example_backend_def)
    have v: "iface_get_vif_by_name example_backend ''eth0'' = 0"
      by (simp add: example_backend_def)
    have r: "\<And>c. result_of example_backend c = 0"
      by (simp add: example_backend_def)
    from T4 [THEN conjunct1, THEN mp, OF h4] show ?thesis
      by (simp only: f4 e v w4 r) simp
  qed
  have r6: "resolved AF_INET6 example_backend [''nope'', ''eth1''] = [?f1]"
    by (simp add: resolved_def example_backend_def index_of_def)
  have f6: "filter (resolves AF_INET6 example_backend) [''nope'', ''eth1''] = [''eth1'']"
    by (simp add: resolves_def example_backend_def index_of_def)
  have h6: "strchr ''ff02::1'' CHR '':'' \<and> \<not> ipv6_disabled (example_build True)
      \<and> 0 \<le> iface_get_mif_by_name example_backend ''eth0''
      \<and> inet_pton6 (example_build True) ''2001:db8::1'' = Some 0x20010db8000000000000000000000001
      \<and> inet_pton6 (example_build True) ''ff02::1'' = Some 0xff020000000000000000000000000001
      \<and> IN6_IS_ADDR_MULTICAST 0xff020000000000000000000000000001 \<and> [''nope'', ''eth1''] \<noteq> []"
    by (simp add: strchr_def example_backend_def example_build_def ipv6_disabled_def
        IN6_IS_ADDR_MULTICAST_def)
  have a6: "add_mroute (example_build True) example_backend 7 (Some ''eth0'') (Some ''ff02::1'')
       (Some ''2001:db8::1'') [''nope'', ''eth1''] =
     (0, [WARN 7 (Invalid_outbound_IPv6_interface ''nope''),
          Call (mroute6_add \<lparr>inbound6 = 0, source6 = 0x20010db8000000000000000000000001,
                              group6 = 0xff020000000000000000000000000001,
                              ttl6 = [(1, 5)]\<rparr>)])"
  proof -
    have e: "expected_mroute6 example_backend ''eth0'' 0x20010db8000000000000000000000001
          0xff020000000000000000000000000001 [''nope'', ''eth1''] =
        \<lparr>inbound6 = 0, source6 = 0x20010db8000000000000000000000001,
         group6 = 0xff020000000000000000000000000001, ttl6 = [(1, 5)]\<rparr>"
      by (simp add: expected_mroute6_def r6 writes_def index_of_def)
         (simp add: example_backend_def)
    have v: "iface_get_mif_by_name example_backend ''eth0'' = 0"
      by (simp add: example_backend_def)
    have r: "\<And>c. result_of example_backend c = 0"
      by (simp add: example_backend_def)
    have w: "outbound_warnings AF_INET6 example_backend 7 ''eth0'' 0 [''nope'', ''eth1''] =
        [WARN 7 (Invalid_outbound_IPv6_interface ''nope'')]"
      by (simp add: outbound_warnings_def example_backend_def index_of_def Invalid_outbound_def)
    from T6 [THEN conjunct2, THEN conjunct1, THEN mp, OF h6] show ?thesis
      by (simp only: f6 e v w r) simp
  qed
  have cons: "\<forall>f \<in> set (resolved AF_INET example_backend ?out).
       \<forall>g \<in> set (resolved AF_INET example_backend ?out).
          index_of AF_INET f = index_of AF_INET g \<longrightarrow> threshold f = threshold g"
    by (simp add: r4 index_of_def)
  have t2: "ttl_at (writes AF_INET (resolved AF_INET example_backend ?out)) 2 = 7"
    using T4 [THEN conjunct2, THEN conjunct2, THEN conjunct2, THEN conjunct2, THEN conjunct2,
              THEN conjunct2, THEN conjunct2, THEN conjunct2, THEN mp, OF cons]
    by (simp add: r4 index_of_def)
  have none0: "\<forall>f \<in> set (resolved AF_INET example_backend ?out). index_of AF_INET f \<noteq> 0"
    by (simp add: r4 index_of_def)
  have t0: "ttl_at (writes AF_INET (resolved AF_INET example_backend ?out)) 0 = 0"
    using T4 [THEN conjunct2, THEN conjunct2, THEN conjunct2, THEN conjunct2, THEN conjunct2,
              THEN conjunct2, THEN conjunct2, THEN conjunct1, THEN mp, OF none0] .
  show ?thesis using a4 a6 t2 t0 by (intro conjI)
qed

subsection \<open>The TTL threshold of a phyint line\<close>

text \<open>
  C3. The claim: a \<open>ttl-threshold\<close> value outside [1,255] is ignored, and the threshold
  passed to \<open>mroute_add_vif\<close> is the default. The range test of the source is
  \<open>num >= 1 || num <= 255\<close>, which every integer passes: on the line below the value 0
  replaces the default 1 and reaches the backend.
\<close>

theorem ttl_threshold_out_of_range_is_applied:
  "conf_line b bk do_vifs lineno ''phyint eth0 enable ttl-threshold 0\<newline>'' =
     Inr [Call (mroute_add_vif (Some ''eth0'') 0)]"
  by code_simp

subsection \<open>The outbound array\<close>

text \<open>
  C5. The claim: at most 32 outbound names are stored, and a write beyond the array
  \<open>dest[32]\<close> cannot happen. The loop \<open>while ((dest[num] = pop_token(&line))) num++\<close>
  has no bound: on a line with 33 names after \<open>to\<close> the 33rd name is written to
  \<open>dest[32]\<close>.
\<close>

theorem dest_written_out_of_bounds:
  "conf_line b bk do_vifs lineno
     ''mroute from eth0 group 225.1.2.3 to a b c d e f g h i j k l m n o p q r s t u v w x y z A B C D E F G\<newline>'' =
   Inl Dest_out_of_bounds"
  by code_simp

subsection \<open>A rejected operand\<close>

text \<open>
  C2. An operand is rejected when it fails its check (\<open>mgroup_rejected\<close>,
  \<open>mroute_rejected\<close>: an invalid address literal, a group that is no multicast address,
  an invalid prefix length, an inbound interface that does not resolve, no valid outbound
  interface, a source together with a prefix); the check that fails logs one of the
  warnings of \<open>rejection\<close>. A directive with a rejected operand returns 1 and calls
  nothing (in a build without IPv6 a directive with a \<open>:\<close> in its group is ignored
  before any check). On every line, when a warning of \<open>rejection\<close> is logged the line
  makes no backend call at all. The line \<open>mgroup from eth0 group 10.0.0.1\<close> logs that
  the group is invalid and calls nothing, whatever the build and the backend. The prefix
  length is the \<open>int\<close> that \<open>atoi\<close> returns: the length \<open>4294967312\<close> is 16 to the code,
  so a group with it is not rejected and its route is added.
\<close>

theorem rejected_operand_no_backend_call:
  "(\<forall>evs w n. conf_line b bk do_vifs lineno line = Inr evs \<and> rejection w \<and> WARN n w \<in> set evs
       \<longrightarrow> calls_of evs = [])
   \<and> ((\<not> ipv6_disabled b \<or> \<not> strchr gstr CHR '':'') \<and> mgroup_rejected b src_opt gstr
       \<longrightarrow> fst (join_mgroup b bk lineno i_opt src_opt (Some gstr)) = 1
          \<and> calls_of (snd (join_mgroup b bk lineno i_opt src_opt (Some gstr))) = [])
   \<and> ((\<not> ipv6_disabled b \<or> \<not> strchr gstr CHR '':'')
        \<and> mroute_rejected b bk ifn src_opt gstr outbound
       \<longrightarrow> fst (add_mroute b bk lineno (Some ifn) (Some gstr) src_opt outbound) = 1
          \<and> calls_of (snd (add_mroute b bk lineno (Some ifn) (Some gstr) src_opt outbound)) = [])
   \<and> conf_line b bk do_vifs lineno ''mgroup from eth0 group 10.0.0.1\<newline>'' =
       Inr [WARN lineno (Invalid_IPv4_multicast_group ''10.0.0.1'')]"
proof (intro conjI)
  show "\<forall>evs w n. conf_line b bk do_vifs lineno line = Inr evs \<and> rejection w \<and> WARN n w \<in> set evs
       \<longrightarrow> calls_of evs = []"
    using conf_line_rejection by blast
next
  show "(\<not> ipv6_disabled b \<or> \<not> strchr gstr CHR '':'') \<and> mgroup_rejected b src_opt gstr
       \<longrightarrow> fst (join_mgroup b bk lineno i_opt src_opt (Some gstr)) = 1
          \<and> calls_of (snd (join_mgroup b bk lineno i_opt src_opt (Some gstr))) = []"
    using join_mgroup_rejected by blast
next
  show "(\<not> ipv6_disabled b \<or> \<not> strchr gstr CHR '':'')
        \<and> mroute_rejected b bk ifn src_opt gstr outbound
       \<longrightarrow> fst (add_mroute b bk lineno (Some ifn) (Some gstr) src_opt outbound) = 1
          \<and> calls_of (snd (add_mroute b bk lineno (Some ifn) (Some gstr) src_opt outbound)) = []"
    using add_mroute_rejected by blast
next
  show "conf_line b bk do_vifs lineno ''mgroup from eth0 group 10.0.0.1\<newline>'' =
       Inr [WARN lineno (Invalid_IPv4_multicast_group ''10.0.0.1'')]"
    by (rule ex_S7)
qed

theorem rejected_operand_no_backend_call_witness:
  "conf_line (example_build False) example_backend 0 1 ''mgroup from eth0 group 10.0.0.1\<newline>'' =
       Inr [WARN 1 (Invalid_IPv4_multicast_group ''10.0.0.1'')]
   \<and> rejection (Invalid_IPv4_multicast_group ''10.0.0.1'')
   \<and> WARN 1 (Invalid_IPv4_multicast_group ''10.0.0.1'')
        \<in> set [WARN 1 (Invalid_IPv4_multicast_group ''10.0.0.1'')]
   \<and> calls_of [WARN 1 (Invalid_IPv4_multicast_group ''10.0.0.1'')] = []
   \<and> mgroup_rejected (example_build False) None ''10.0.0.1''
   \<and> fst (join_mgroup (example_build False) example_backend 1 (Some ''eth0'') None
            (Some ''10.0.0.1'')) = 1
   \<and> calls_of (snd (join_mgroup (example_build False) example_backend 1 (Some ''eth0'') None
            (Some ''10.0.0.1''))) = []
   \<and> mroute_rejected (example_build False) example_backend ''nope'' None ''239.1.0.0/16''
        [''eth1'']
   \<and> fst (add_mroute (example_build False) example_backend 1 (Some ''nope'')
            (Some ''239.1.0.0/16'') None [''eth1'']) = 1
   \<and> calls_of (snd (add_mroute (example_build False) example_backend 1 (Some ''nope'')
            (Some ''239.1.0.0/16'') None [''eth1''])) = []
   \<and> \<not> mroute_rejected (example_build False) example_backend ''eth0'' None
          ''239.1.0.0/4294967312'' [''eth1'']
   \<and> add_mroute (example_build False) example_backend 7 (Some ''eth0'')
          (Some ''239.1.0.0/4294967312'') None [''eth1''] =
        (0, [Call (mroute4_add \<lparr>inbound4 = 0, source4 = 0, group4 = 0xEF010000, len4 = 16,
                                 ttl4 = [(1, 5)]\<rparr>)])"
proof -
  note T = rejected_operand_no_backend_call [where b = "example_build False"
      and bk = example_backend and do_vifs = 0 and lineno = 1
      and line = "''mgroup from eth0 group 10.0.0.1\<newline>''"
      and gstr = "''10.0.0.1''" and src_opt = None and i_opt = "Some ''eth0''"]
  note R = rejected_operand_no_backend_call [where b = "example_build False"
      and bk = example_backend and lineno = 1 and gstr = "''239.1.0.0/16''" and src_opt = None
      and ifn = "''nope''" and outbound = "[''eth1'']"]
  have a: "conf_line (example_build False) example_backend 0 1
        ''mgroup from eth0 group 10.0.0.1\<newline>'' =
       Inr [WARN 1 (Invalid_IPv4_multicast_group ''10.0.0.1'')]"
    by (rule T [THEN conjunct2, THEN conjunct2, THEN conjunct2])
  have r: "rejection (Invalid_IPv4_multicast_group ''10.0.0.1'')" by simp
  have m: "WARN 1 (Invalid_IPv4_multicast_group ''10.0.0.1'')
        \<in> set [WARN 1 (Invalid_IPv4_multicast_group ''10.0.0.1'')]" by simp
  from T [THEN conjunct1, rule_format, OF conjI [OF a conjI [OF r m]]]
  have c: "calls_of [WARN 1 (Invalid_IPv4_multicast_group ''10.0.0.1'')] = []" .
  have g: "mgroup_rejected (example_build False) None ''10.0.0.1''"
    by (simp add: mgroup_rejected_def strchr_def ex_pton4_10 IN_MULTICAST_def)
  have hg: "(\<not> ipv6_disabled (example_build False) \<or> \<not> strchr ''10.0.0.1'' CHR '':'')
      \<and> mgroup_rejected (example_build False) None ''10.0.0.1''"
    using g by (simp add: strchr_def)
  have q: "mroute_rejected (example_build False) example_backend ''nope'' None ''239.1.0.0/16''
        [''eth1'']"
    by (simp add: mroute_rejected_def strchr_def example_backend_def)
  have hq: "(\<not> ipv6_disabled (example_build False) \<or> \<not> strchr ''239.1.0.0/16'' CHR '':'')
      \<and> mroute_rejected (example_build False) example_backend ''nope'' None ''239.1.0.0/16''
           [''eth1'']"
    using q by (simp add: strchr_def)
  note j = T [THEN conjunct2, THEN conjunct1, THEN mp, OF hg]
  note k = R [THEN conjunct2, THEN conjunct2, THEN conjunct1, THEN mp, OF hq]
  from a r m c g j [THEN conjunct1] j [THEN conjunct2] q k [THEN conjunct1] k [THEN conjunct2]
    ex_prefix_wraps_not_rejected ex_prefix_wraps
  show ?thesis by (intro conjI)
qed

subsection \<open>A source together with a prefix\<close>

text \<open>
  C6. An IPv4 \<open>mroute\<close> directive (no \<open>:\<close> in the group) whose group carries a \<open>/LEN\<close>
  and whose source parses to an address other than the wildcard is rejected: the result
  is 1, the one warning is that GROUP/LEN is not supported for source specific multicast,
  and nothing is called. Without a source, or with a source that parses to the wildcard,
  that warning is never logged.
\<close>

theorem prefix_with_source_rejected:
  "(\<not> strchr gstr CHR '':'' \<and> strchr gstr CHR ''/'' \<and> outbound \<noteq> []
      \<and> 0 \<le> iface_get_vif_by_name bk ifn \<and> inet_pton4 s = Some src \<and> src \<noteq> INADDR_ANY
    \<longrightarrow> add_mroute b bk lineno (Some ifn) (Some gstr) (Some s) outbound =
          (1, [WARN lineno GROUP_LEN_not_supported_for_SSM]))
   \<and> (\<not> strchr gstr CHR '':''
      \<and> (src_opt = None \<or> (\<exists>s. src_opt = Some s \<and> inet_pton4 s = Some INADDR_ANY))
    \<longrightarrow> WARN n GROUP_LEN_not_supported_for_SSM
          \<notin> set (snd (add_mroute b bk lineno i_opt (Some gstr) src_opt outbound)))"
proof (intro conjI impI)
  assume "\<not> strchr gstr CHR '':'' \<and> strchr gstr CHR ''/'' \<and> outbound \<noteq> []
      \<and> 0 \<le> iface_get_vif_by_name bk ifn \<and> inet_pton4 s = Some src \<and> src \<noteq> INADDR_ANY"
  then show "add_mroute b bk lineno (Some ifn) (Some gstr) (Some s) outbound =
          (1, [WARN lineno GROUP_LEN_not_supported_for_SSM])"
    by (simp add: add_mroute_def add_mroute4_def add_mroute4_group_def)
next
  assume h: "\<not> strchr gstr CHR '':''
      \<and> (src_opt = None \<or> (\<exists>s. src_opt = Some s \<and> inet_pton4 s = Some INADDR_ANY))"
  show "WARN n GROUP_LEN_not_supported_for_SSM
          \<notin> set (snd (add_mroute b bk lineno i_opt (Some gstr) src_opt outbound))"
  proof (cases i_opt)
    case None
    then show ?thesis by (simp add: add_mroute_def)
  next
    case (Some ifn)
    with h show ?thesis
      using add_mroute4_group_wildcard [of n bk lineno ifn "iface_get_vif_by_name bk ifn" gstr outbound]
      by (auto simp: add_mroute_def add_mroute4_def Let_def)
  qed
qed

theorem prefix_with_source_rejected_witness:
  "add_mroute (example_build False) example_backend 7 (Some ''eth0'') (Some ''239.1.0.0/16'')
       (Some ''10.0.0.1'') [''eth1''] =
     (1, [WARN 7 GROUP_LEN_not_supported_for_SSM])
   \<and> WARN 7 GROUP_LEN_not_supported_for_SSM
        \<notin> set (snd (add_mroute (example_build False) example_backend 7 (Some ''eth0'')
                       (Some ''239.1.0.0/16'') None [''eth1'']))"
proof -
  note T = prefix_with_source_rejected [where b = "example_build False" and bk = example_backend
      and lineno = 7 and ifn = "''eth0''" and gstr = "''239.1.0.0/16''" and s = "''10.0.0.1''"
      and src = "0x0A000001" and outbound = "[''eth1'']" and src_opt = None
      and i_opt = "Some ''eth0''" and n = 7]
  have h1: "\<not> strchr ''239.1.0.0/16'' CHR '':'' \<and> strchr ''239.1.0.0/16'' CHR ''/''
      \<and> [''eth1''] \<noteq> [] \<and> 0 \<le> iface_get_vif_by_name example_backend ''eth0''
      \<and> inet_pton4 ''10.0.0.1'' = Some 0x0A000001 \<and> (0x0A000001 :: in_addr) \<noteq> INADDR_ANY"
    by (simp add: strchr_def example_backend_def ex_pton4_10 INADDR_ANY_def)
  have h2: "\<not> strchr ''239.1.0.0/16'' CHR '':''
      \<and> (None = None \<or> (\<exists>s. None = Some s \<and> inet_pton4 s = Some INADDR_ANY))"
    by (simp add: strchr_def)
  from T [THEN conjunct1, THEN mp, OF h1] T [THEN conjunct2, THEN mp, OF h2]
  show ?thesis by (intro conjI)
qed

subsection \<open>An unknown command\<close>

text \<open>
  C4. The claim: when the first token of a line is not a verb, the warning
  \<open>Unknown command <token>, skipping.\<close> is logged and the further tokens of the line
  have no effect. The \<open>continue\<close> of the source goes on with the next token, and
  \<open>op\<close> is still 0, so that token is tried as a verb again. What holds: the warning
  for the first token is logged, as the first event of the line; and when no token
  before a comment has a verb as a prefix, every token gets the warning, no variable of
  the line is set and the line calls nothing.
\<close>

theorem unknown_command_skipped:
  "(\<forall>t rest evs. pop_token (Some line) = (Some t, rest) \<and> \<not> match ''#'' t \<and> \<not> is_verb t
        \<and> conf_line b bk do_vifs lineno line = Inr evs
      \<longrightarrow> (\<exists>evs'. evs = WARN lineno (Unknown_command t) # evs'))
   \<and> ((\<forall>t \<in> set (takeWhile (\<lambda>t. \<not> match ''#'' t) (tokens (Some line))). \<not> is_verb t)
      \<longrightarrow> tokens_loop lineno (Some line) (init_vars do_vifs) =
            Inr ((init_vars do_vifs)\<lparr>warned :=
                   map (\<lambda>t. WARN lineno (Unknown_command t))
                     (takeWhile (\<lambda>t. \<not> match ''#'' t) (tokens (Some line)))\<rparr>)
          \<and> conf_line b bk do_vifs lineno line =
              Inr (map (\<lambda>t. WARN lineno (Unknown_command t))
                     (takeWhile (\<lambda>t. \<not> match ''#'' t) (tokens (Some line)))))
   \<and> WARN_text lineno (Unknown_command token) =
       show_02d lineno @ '': Unknown command '' @ token @ '', skipping.''"
proof (intro conjI allI impI)
  fix t rest evs
  assume "pop_token (Some line) = (Some t, rest) \<and> \<not> match ''#'' t \<and> \<not> is_verb t
        \<and> conf_line b bk do_vifs lineno line = Inr evs"
  then show "\<exists>evs'. evs = WARN lineno (Unknown_command t) # evs'"
    using first_unknown_warned by blast
next
  assume h: "\<forall>t \<in> set (takeWhile (\<lambda>t. \<not> match ''#'' t) (tokens (Some line))). \<not> is_verb t"
  have "op (init_vars do_vifs) = 0" by (simp add: init_vars_def)
  from tokens_loop_unknown [OF this h, of lineno]
  show l: "tokens_loop lineno (Some line) (init_vars do_vifs) =
            Inr ((init_vars do_vifs)\<lparr>warned :=
                   map (\<lambda>t. WARN lineno (Unknown_command t))
                     (takeWhile (\<lambda>t. \<not> match ''#'' t) (tokens (Some line)))\<rparr>)"
    by (simp add: init_vars_def)
  show "conf_line b bk do_vifs lineno line =
              Inr (map (\<lambda>t. WARN lineno (Unknown_command t))
                     (takeWhile (\<lambda>t. \<not> match ''#'' t) (tokens (Some line))))"
    by (simp add: conf_line_def l apply_directive_def) (simp add: init_vars_def)
next
  show "WARN_text lineno (Unknown_command token) =
       show_02d lineno @ '': Unknown command '' @ token @ '', skipping.''"
    by (simp add: WARN_text_def)
qed

text \<open>
  The claim fails on the line \<open>foo phyint eth0 enable\<close>: after the warning for \<open>foo\<close>
  the directive \<open>phyint\<close> is recognised and the interface is added.
\<close>

theorem unknown_command_then_verb:
  "\<not> is_verb ''foo'' \<and>
   conf_line (example_build False) example_backend 0 1 ''foo phyint eth0 enable\<newline>'' =
     Inr [WARN 1 (Unknown_command ''foo''), Call (mroute_add_vif (Some ''eth0'') 1)]"
proof
  show "\<not> is_verb ''foo''" by (simp add: is_verb_def match_def)
  show "conf_line (example_build False) example_backend 0 1 ''foo phyint eth0 enable\<newline>'' =
     Inr [WARN 1 (Unknown_command ''foo''), Call (mroute_add_vif (Some ''eth0'') 1)]"
    by code_simp
qed

theorem unknown_command_skipped_witness:
  "conf_line (example_build False) example_backend 0 3 ''foo bar # phyint eth0\<newline>'' =
     Inr [WARN 3 (Unknown_command ''foo''), WARN 3 (Unknown_command ''bar'')]
   \<and> tokens_loop 3 (Some ''foo bar # phyint eth0\<newline>'') (init_vars 0) =
       Inr ((init_vars 0)\<lparr>warned := [WARN 3 (Unknown_command ''foo''),
                                        WARN 3 (Unknown_command ''bar'')]\<rparr>)
   \<and> (\<exists>evs'. [WARN 3 (Unknown_command ''foo''), WARN 3 (Unknown_command ''bar'')] =
               WARN 3 (Unknown_command ''foo'') # evs')
   \<and> WARN_text 3 (Unknown_command ''foo'') = ''03: Unknown command foo, skipping.''"
proof -
  let ?line = "''foo bar # phyint eth0\<newline>''"
  note T = unknown_command_skipped [where line = ?line and b = "example_build False"
      and bk = example_backend and do_vifs = 0 and lineno = 3 and token = "''foo''"]
  have nv: "\<forall>t \<in> set (takeWhile (\<lambda>t. \<not> match ''#'' t) (tokens (Some ?line))). \<not> is_verb t"
    unfolding ex_tokens_unknown by (simp add: is_verb_def match_def)
  from T [THEN conjunct2, THEN conjunct1, THEN mp, OF nv]
  have a: "tokens_loop 3 (Some ?line) (init_vars 0) =
       Inr ((init_vars 0)\<lparr>warned := [WARN 3 (Unknown_command ''foo''),
                                        WARN 3 (Unknown_command ''bar'')]\<rparr>)"
    and b: "conf_line (example_build False) example_backend 0 3 ?line =
     Inr [WARN 3 (Unknown_command ''foo''), WARN 3 (Unknown_command ''bar'')]"
    by (simp_all add: ex_tokens_unknown)
  have h: "pop_token (Some ?line) = (Some ''foo'', Some ''bar # phyint eth0\<newline>'')
      \<and> \<not> match ''#'' ''foo'' \<and> \<not> is_verb ''foo''
      \<and> conf_line (example_build False) example_backend 0 3 ?line =
          Inr [WARN 3 (Unknown_command ''foo''), WARN 3 (Unknown_command ''bar'')]"
    using b by (simp add: ex_pop_unknown is_verb_def match_def)
  from T [THEN conjunct1, rule_format, OF h]
  have c: "\<exists>evs'. [WARN 3 (Unknown_command ''foo''), WARN 3 (Unknown_command ''bar'')] =
               WARN 3 (Unknown_command ''foo'') # evs'" .
  have s: "show_02d 3 = ''03''" by code_simp
  from T [THEN conjunct2, THEN conjunct2]
  have d: "WARN_text 3 (Unknown_command ''foo'') = ''03: Unknown command foo, skipping.''"
    by (simp add: s)
  from a b c d show ?thesis by (intro conjI)
qed

subsection \<open>A missing operand\<close>




subsection \<open>The post-apply hook\<close>

text \<open>
  C10. \<open>conf_read\<close> runs \<open>script_exec\<close> once, as its last step, when \<open>access\<close>
  succeeds and \<open>conf_parse\<close> returns 0, and never otherwise: an absent or unreadable
  file only leaves the two log entries; when \<open>fopen\<close> or \<open>malloc\<close> fails, \<open>conf_parse\<close>
  returns 1 and the failure is logged; the lines of the file never run the hook
  themselves, so the number of its runs grows by one exactly in the first case. When
  the file opens, the buffer is allocated and no line has more than 32 tokens, the pass
  does return 0 and the hook runs.
\<close>

theorem post_apply_hook_once:
  "(access_R_OK sys path = Access_ENOENT \<longrightarrow>
      conf_read b world sys path do_vifs trace =
        Inr (trace @ [smclog LOG_NOTICE (Configuration_file_does_not_exist path),
                      smclog LOG_NOTICE Continuing_anyway]))
   \<and> (access_R_OK sys path = Access_other_error \<longrightarrow>
      conf_read b world sys path do_vifs trace =
        Inr (trace @ [smclog LOG_WARNING (Unexpected_error_when_accessing path),
                      smclog LOG_NOTICE Continuing_anyway]))
   \<and> (access_R_OK sys path = Access_ok \<and> (\<not> fopen_ok sys path \<or> \<not> malloc_ok sys) \<longrightarrow>
      conf_parse b world sys path do_vifs trace = Inr (1, trace)
      \<and> conf_read b world sys path do_vifs trace =
          Inr (trace @ [smclog LOG_WARNING (Failed_parsing path)]))
   \<and> (\<forall>t. access_R_OK sys path = Access_ok
          \<and> conf_parse b world sys path do_vifs trace = Inr (0, t) \<longrightarrow>
      conf_read b world sys path do_vifs trace = Inr (t @ [Call script_exec])
      \<and> (\<exists>new. t = trace @ new \<and> Call script_exec \<notin> set new))
   \<and> (\<forall>t. conf_read b world sys path do_vifs trace = Inr t \<longrightarrow>
      hook_calls t = hook_calls trace +
        (if access_R_OK sys path = Access_ok
            \<and> (\<exists>t'. conf_parse b world sys path do_vifs trace = Inr (0, t'))
         then 1 else 0))
   \<and> (access_R_OK sys path = Access_ok \<and> fopen_ok sys path \<and> malloc_ok sys
        \<and> (\<forall>l \<in> set (file_lines (contents sys path)). length (tokens (Some l)) \<le> 32) \<longrightarrow>
      (\<exists>new. conf_parse b world sys path do_vifs trace = Inr (0, trace @ new)
         \<and> conf_read b world sys path do_vifs trace = Inr (trace @ new @ [Call script_exec])
         \<and> Call script_exec \<notin> set new))"
proof -
  have ok: "conf_read b world sys path do_vifs trace = Inr (t @ [Call script_exec])
      \<and> (\<exists>new. t = trace @ new \<and> Call script_exec \<notin> set new)"
    if h: "access_R_OK sys path = Access_ok"
      "conf_parse b world sys path do_vifs trace = Inr (0, t)" for t
  proof -
    from conf_parse_events [OF h(2)] obtain new
      where "t = trace @ new" "\<forall>e \<in> set new. \<exists>n. line_event b n e" by blast
    then have "t = trace @ new \<and> Call script_exec \<notin> set new"
      using line_event_no_hook by blast
    moreover from h have "conf_read b world sys path do_vifs trace = Inr (t @ [Call script_exec])"
      by (simp add: conf_read_def)
    ultimately show ?thesis by blast
  qed
  have p1: "access_R_OK sys path = Access_ENOENT \<longrightarrow>
      conf_read b world sys path do_vifs trace =
        Inr (trace @ [smclog LOG_NOTICE (Configuration_file_does_not_exist path),
                      smclog LOG_NOTICE Continuing_anyway])"
    by (simp add: conf_read_def)
  have p2: "access_R_OK sys path = Access_other_error \<longrightarrow>
      conf_read b world sys path do_vifs trace =
        Inr (trace @ [smclog LOG_WARNING (Unexpected_error_when_accessing path),
                      smclog LOG_NOTICE Continuing_anyway])"
    by (simp add: conf_read_def)
  have p3: "access_R_OK sys path = Access_ok \<and> (\<not> fopen_ok sys path \<or> \<not> malloc_ok sys) \<longrightarrow>
      conf_parse b world sys path do_vifs trace = Inr (1, trace)
      \<and> conf_read b world sys path do_vifs trace =
          Inr (trace @ [smclog LOG_WARNING (Failed_parsing path)])"
    by (auto simp: conf_read_def conf_parse_def)
  have p4: "\<forall>t. access_R_OK sys path = Access_ok
          \<and> conf_parse b world sys path do_vifs trace = Inr (0, t) \<longrightarrow>
      conf_read b world sys path do_vifs trace = Inr (t @ [Call script_exec])
      \<and> (\<exists>new. t = trace @ new \<and> Call script_exec \<notin> set new)"
    using ok by blast
  have p5: "\<forall>t. conf_read b world sys path do_vifs trace = Inr t \<longrightarrow>
      hook_calls t = hook_calls trace +
        (if access_R_OK sys path = Access_ok
            \<and> (\<exists>t'. conf_parse b world sys path do_vifs trace = Inr (0, t'))
         then 1 else 0)"
  proof (intro allI impI)
    fix t
    assume run: "conf_read b world sys path do_vifs trace = Inr t"
    show "hook_calls t = hook_calls trace +
        (if access_R_OK sys path = Access_ok
            \<and> (\<exists>t'. conf_parse b world sys path do_vifs trace = Inr (0, t'))
         then 1 else 0)"
    proof (cases "access_R_OK sys path")
      case Access_ok
      with run obtain r t' where cp: "conf_parse b world sys path do_vifs trace = Inr (r, t')"
        by (auto simp: conf_read_def split: sum.splits)
      from conf_parse_events [OF cp] obtain new
        where new: "t' = trace @ new" "\<forall>e \<in> set new. \<exists>n. line_event b n e" by blast
      then have "Call script_exec \<notin> set new" using line_event_no_hook by blast
      then have z: "hook_calls new = 0" by (rule hook_calls_none)
      show ?thesis
      proof (cases "r = 0")
        case True
        with run cp Access_ok have "t = t' @ [Call script_exec]" by (simp add: conf_read_def)
        with new z True cp Access_ok show ?thesis by (simp add: hook_calls_def)
      next
        case False
        with run cp Access_ok have "t = t' @ [smclog LOG_WARNING (Failed_parsing path)]"
          by (simp add: conf_read_def)
        with new z False cp Access_ok show ?thesis by (simp add: hook_calls_def)
      qed
    next
      case Access_ENOENT
      with run show ?thesis by (auto simp: conf_read_def hook_calls_def)
    next
      case Access_other_error
      with run show ?thesis by (auto simp: conf_read_def hook_calls_def)
    qed
  qed
  have p6: "access_R_OK sys path = Access_ok \<and> fopen_ok sys path \<and> malloc_ok sys
        \<and> (\<forall>l \<in> set (file_lines (contents sys path)). length (tokens (Some l)) \<le> 32) \<longrightarrow>
      (\<exists>new. conf_parse b world sys path do_vifs trace = Inr (0, trace @ new)
         \<and> conf_read b world sys path do_vifs trace = Inr (trace @ new @ [Call script_exec])
         \<and> Call script_exec \<notin> set new)"
  proof (intro impI, elim conjE)
    assume a: "access_R_OK sys path = Access_ok" and f: "fopen_ok sys path" and m: "malloc_ok sys"
      and l: "\<forall>l \<in> set (file_lines (contents sys path)). length (tokens (Some l)) \<le> 32"
    from conf_parse_total [OF f m l] obtain t
      where t: "conf_parse b world sys path do_vifs trace = Inr (0, t)" by blast
    from ok [OF a t] t show "\<exists>new. conf_parse b world sys path do_vifs trace = Inr (0, trace @ new)
         \<and> conf_read b world sys path do_vifs trace = Inr (trace @ new @ [Call script_exec])
         \<and> Call script_exec \<notin> set new"
      by auto
  qed
  from p1 p2 p3 p4 p5 p6 show ?thesis by (intro conjI)
qed

theorem post_apply_hook_once_witness:
  "conf_read (example_build False) (\<lambda>calls. example_backend) example_os ''absent.conf'' 0 [] =
     Inr [smclog LOG_NOTICE (Configuration_file_does_not_exist ''absent.conf''),
          smclog LOG_NOTICE Continuing_anyway]
   \<and> conf_read (example_build False) (\<lambda>calls. example_backend) example_os ''secret.conf'' 0 [] =
       Inr [smclog LOG_WARNING (Unexpected_error_when_accessing ''secret.conf''),
            smclog LOG_NOTICE Continuing_anyway]
   \<and> conf_read (example_build False) (\<lambda>calls. example_backend) example_os ''gone.conf'' 0 [] =
       Inr [smclog LOG_WARNING (Failed_parsing ''gone.conf'')]
   \<and> conf_read (example_build False) (\<lambda>calls. example_backend) example_os ''smcroute.conf'' 0 [] =
       Inr [WARN 1 (Unknown_command ''bogus''), Call (mroute_add_vif (Some ''eth0'') 1),
            Call script_exec]
   \<and> hook_calls [WARN 1 (Unknown_command ''bogus''), Call (mroute_add_vif (Some ''eth0'') 1),
                  Call script_exec] = 1
   \<and> (\<exists>new. conf_read (example_build False) (\<lambda>calls. example_backend) example_os
               ''smcroute.conf'' 0 [] = Inr ([] @ new @ [Call script_exec])
          \<and> Call script_exec \<notin> set new)"
proof -
  let ?b = "example_build False" and ?w = "\<lambda>calls :: call list. example_backend"
  let ?t = "[WARN 1 (Unknown_command ''bogus''), Call (mroute_add_vif (Some ''eth0'') 1)]"
  note Ta = post_apply_hook_once [where sys = example_os and path = "''absent.conf''"
      and b = ?b and world = ?w and do_vifs = 0 and trace = "[]"]
  note Ts = post_apply_hook_once [where sys = example_os and path = "''secret.conf''"
      and b = ?b and world = ?w and do_vifs = 0 and trace = "[]"]
  note Tg = post_apply_hook_once [where sys = example_os and path = "''gone.conf''"
      and b = ?b and world = ?w and do_vifs = 0 and trace = "[]"]
  note Tc = post_apply_hook_once [where sys = example_os and path = "''smcroute.conf''"
      and b = ?b and world = ?w and do_vifs = 0 and trace = "[]"]
  have ha: "access_R_OK example_os ''absent.conf'' = Access_ENOENT"
    by (simp add: example_os_def)
  have hs: "access_R_OK example_os ''secret.conf'' = Access_other_error"
    by (simp add: example_os_def)
  have hg: "access_R_OK example_os ''gone.conf'' = Access_ok
      \<and> (\<not> fopen_ok example_os ''gone.conf'' \<or> \<not> malloc_ok example_os)"
    by (simp add: example_os_def)
  have hc: "access_R_OK example_os ''smcroute.conf'' = Access_ok
      \<and> conf_parse ?b ?w example_os ''smcroute.conf'' 0 [] = Inr (0, ?t)"
    by (simp add: ex_conf_parse) (simp add: example_os_def)
  have hl: "access_R_OK example_os ''smcroute.conf'' = Access_ok
      \<and> fopen_ok example_os ''smcroute.conf'' \<and> malloc_ok example_os
      \<and> (\<forall>l \<in> set (file_lines (contents example_os ''smcroute.conf'')).
            length (tokens (Some l)) \<le> 32)"
    using ex_file_tokens by (simp add: example_os_def)
  have a: "conf_read ?b ?w example_os ''absent.conf'' 0 [] =
     Inr [smclog LOG_NOTICE (Configuration_file_does_not_exist ''absent.conf''),
          smclog LOG_NOTICE Continuing_anyway]"
    using Ta [THEN conjunct1, THEN mp, OF ha] by simp
  have s: "conf_read ?b ?w example_os ''secret.conf'' 0 [] =
       Inr [smclog LOG_WARNING (Unexpected_error_when_accessing ''secret.conf''),
            smclog LOG_NOTICE Continuing_anyway]"
    using Ts [THEN conjunct2, THEN conjunct1, THEN mp, OF hs] by simp
  have g: "conf_read ?b ?w example_os ''gone.conf'' 0 [] =
       Inr [smclog LOG_WARNING (Failed_parsing ''gone.conf'')]"
    using Tg [THEN conjunct2, THEN conjunct2, THEN conjunct1, THEN mp, OF hg] by simp
  have c: "conf_read ?b ?w example_os ''smcroute.conf'' 0 [] =
       Inr [WARN 1 (Unknown_command ''bogus''), Call (mroute_add_vif (Some ''eth0'') 1),
            Call script_exec]"
    using Tc [THEN conjunct2, THEN conjunct2, THEN conjunct2, THEN conjunct1, rule_format, OF hc]
    by simp
  have n: "hook_calls [WARN 1 (Unknown_command ''bogus''), Call (mroute_add_vif (Some ''eth0'') 1),
                  Call script_exec] = 1"
    using Tc [THEN conjunct2, THEN conjunct2, THEN conjunct2, THEN conjunct2, THEN conjunct1,
              rule_format, OF c] hc
    by (auto simp: hook_calls_def)
  have e: "\<exists>new. conf_read ?b ?w example_os ''smcroute.conf'' 0 [] =
               Inr ([] @ new @ [Call script_exec]) \<and> Call script_exec \<notin> set new"
    using Tc [THEN conjunct2, THEN conjunct2, THEN conjunct2, THEN conjunct2, THEN conjunct2,
              THEN mp, OF hl]
    by blast
  from a s g c n e show ?thesis by (intro conjI)
qed

subsection \<open>A build without IPv6 multicast\<close>

text \<open>
  C7. In a build where \<open>HAVE_IPV6_MULTICAST_HOST\<close> or \<open>HAVE_IPV6_MULTICAST_ROUTING\<close> is
  not defined: a directive that reaches the test of the family with a \<open>:\<close> in its group
  (an interface and a group are given, and for \<open>mroute\<close> an outbound name) logs
  \<open>Ignored, IPv6 disabled.\<close> and returns 0; whatever the file, \<open>conf_parse\<close> adds no call
  of \<open>mcgroup6_join\<close> and none of \<open>mroute6_add\<close> to the trace, and once the file is
  open and the buffer allocated it returns nothing but 0; it does return when no line
  has more than 32 tokens.
\<close>

theorem ipv6_disabled_no_v6_calls:
  "ipv6_disabled b \<longrightarrow>
     (strchr gstr CHR '':'' \<longrightarrow>
        join_mgroup b bk lineno (Some ifn) s_opt (Some gstr) =
          (0, [WARN lineno Ignored_IPv6_disabled]))
   \<and> (strchr gstr CHR '':'' \<and> outbound \<noteq> [] \<longrightarrow>
        add_mroute b bk lineno (Some ifn) (Some gstr) s_opt outbound =
          (0, [WARN lineno Ignored_IPv6_disabled]))
   \<and> WARN_text lineno Ignored_IPv6_disabled = show_02d lineno @ '': Ignored, IPv6 disabled.''
   \<and> (\<forall>r t. conf_parse b world sys path do_vifs trace = Inr (r, t) \<longrightarrow>
        (\<exists>new. t = trace @ new
           \<and> (\<forall>i g m. Call (mcgroup6_join i g) \<notin> set new \<and> Call (mroute6_add m) \<notin> set new)))
   \<and> (\<forall>r t. fopen_ok sys path \<and> malloc_ok sys
          \<and> conf_parse b world sys path do_vifs trace = Inr (r, t) \<longrightarrow> r = 0)
   \<and> (fopen_ok sys path \<and> malloc_ok sys
        \<and> (\<forall>l \<in> set (file_lines (contents sys path)). length (tokens (Some l)) \<le> 32) \<longrightarrow>
        (\<exists>new. conf_parse b world sys path do_vifs trace = Inr (0, trace @ new)
           \<and> (\<forall>i g m. Call (mcgroup6_join i g) \<notin> set new \<and> Call (mroute6_add m) \<notin> set new)))"
proof (intro impI)
  assume dis: "ipv6_disabled b"
  have nov6: "\<forall>i g m. Call (mcgroup6_join i g) \<notin> set new \<and> Call (mroute6_add m) \<notin> set new"
    if "\<forall>e \<in> set new. \<exists>n. line_event b n e" for new
  proof (intro allI conjI notI)
    fix i g assume "Call (mcgroup6_join i g) \<in> set new"
    with that obtain n where "line_event b n (Call (mcgroup6_join i g))" by blast
    with dis show False by (simp add: directive_call_def)
  next
    fix m assume "Call (mroute6_add m) \<in> set new"
    with that obtain n where "line_event b n (Call (mroute6_add m))" by blast
    with dis show False by (simp add: directive_call_def)
  qed
  have p1: "strchr gstr CHR '':'' \<longrightarrow>
        join_mgroup b bk lineno (Some ifn) s_opt (Some gstr) =
          (0, [WARN lineno Ignored_IPv6_disabled])"
    using dis by (simp add: join_mgroup_def)
  have p2: "strchr gstr CHR '':'' \<and> outbound \<noteq> [] \<longrightarrow>
        add_mroute b bk lineno (Some ifn) (Some gstr) s_opt outbound =
          (0, [WARN lineno Ignored_IPv6_disabled])"
    using dis by (simp add: add_mroute_def)
  have p3: "WARN_text lineno Ignored_IPv6_disabled = show_02d lineno @ '': Ignored, IPv6 disabled.''"
    by (simp add: WARN_text_def)
  have p4: "\<forall>r t. conf_parse b world sys path do_vifs trace = Inr (r, t) \<longrightarrow>
        (\<exists>new. t = trace @ new
           \<and> (\<forall>i g m. Call (mcgroup6_join i g) \<notin> set new \<and> Call (mroute6_add m) \<notin> set new))"
    using conf_parse_events nov6 by blast
  have p5: "\<forall>r t. fopen_ok sys path \<and> malloc_ok sys
          \<and> conf_parse b world sys path do_vifs trace = Inr (r, t) \<longrightarrow> r = 0"
    using conf_parse_result by fastforce
  have p6: "fopen_ok sys path \<and> malloc_ok sys
        \<and> (\<forall>l \<in> set (file_lines (contents sys path)). length (tokens (Some l)) \<le> 32) \<longrightarrow>
        (\<exists>new. conf_parse b world sys path do_vifs trace = Inr (0, trace @ new)
           \<and> (\<forall>i g m. Call (mcgroup6_join i g) \<notin> set new \<and> Call (mroute6_add m) \<notin> set new))"
  proof (intro impI, elim conjE)
    assume f: "fopen_ok sys path" and m: "malloc_ok sys"
      and l: "\<forall>l \<in> set (file_lines (contents sys path)). length (tokens (Some l)) \<le> 32"
    from conf_parse_total [OF f m l] obtain t
      where t: "conf_parse b world sys path do_vifs trace = Inr (0, t)" by blast
    from conf_parse_events [OF t] obtain new
      where "t = trace @ new" "\<forall>e \<in> set new. \<exists>n. line_event b n e" by blast
    with t nov6 show "\<exists>new. conf_parse b world sys path do_vifs trace = Inr (0, trace @ new)
           \<and> (\<forall>i g m. Call (mcgroup6_join i g) \<notin> set new \<and> Call (mroute6_add m) \<notin> set new)"
      by blast
  qed
  from p1 p2 p3 p4 p5 p6 show "(strchr gstr CHR '':'' \<longrightarrow>
        join_mgroup b bk lineno (Some ifn) s_opt (Some gstr) =
          (0, [WARN lineno Ignored_IPv6_disabled]))
   \<and> (strchr gstr CHR '':'' \<and> outbound \<noteq> [] \<longrightarrow>
        add_mroute b bk lineno (Some ifn) (Some gstr) s_opt outbound =
          (0, [WARN lineno Ignored_IPv6_disabled]))
   \<and> WARN_text lineno Ignored_IPv6_disabled = show_02d lineno @ '': Ignored, IPv6 disabled.''
   \<and> (\<forall>r t. conf_parse b world sys path do_vifs trace = Inr (r, t) \<longrightarrow>
        (\<exists>new. t = trace @ new
           \<and> (\<forall>i g m. Call (mcgroup6_join i g) \<notin> set new \<and> Call (mroute6_add m) \<notin> set new)))
   \<and> (\<forall>r t. fopen_ok sys path \<and> malloc_ok sys
          \<and> conf_parse b world sys path do_vifs trace = Inr (r, t) \<longrightarrow> r = 0)
   \<and> (fopen_ok sys path \<and> malloc_ok sys
        \<and> (\<forall>l \<in> set (file_lines (contents sys path)). length (tokens (Some l)) \<le> 32) \<longrightarrow>
        (\<exists>new. conf_parse b world sys path do_vifs trace = Inr (0, trace @ new)
           \<and> (\<forall>i g m. Call (mcgroup6_join i g) \<notin> set new \<and> Call (mroute6_add m) \<notin> set new)))"
    by (intro conjI)
qed

theorem ipv6_disabled_no_v6_calls_witness:
  "ipv6_disabled (example_build False)
   \<and> join_mgroup (example_build False) example_backend 1 (Some ''eth0'') None (Some ''ff02::1'') =
       (0, [WARN 1 Ignored_IPv6_disabled])
   \<and> add_mroute (example_build False) example_backend 2 (Some ''eth0'') (Some ''ff02::1'')
       (Some ''2001:db8::1'') [''eth1''] = (0, [WARN 2 Ignored_IPv6_disabled])
   \<and> conf_parse (example_build False) (\<lambda>calls. example_backend) example_os ''v6.conf'' 0 [] =
       Inr (0, [WARN 1 Ignored_IPv6_disabled, WARN 2 Ignored_IPv6_disabled,
                Call (mroute_add_vif (Some ''eth0'') 1)])
   \<and> (\<exists>new. conf_parse (example_build False) (\<lambda>calls. example_backend) example_os ''v6.conf'' 0 []
              = Inr (0, [] @ new)
          \<and> (\<forall>i g m. Call (mcgroup6_join i g) \<notin> set new \<and> Call (mroute6_add m) \<notin> set new))"
proof -
  let ?b = "example_build False" and ?w = "\<lambda>calls :: call list. example_backend"
  have dis: "ipv6_disabled ?b" by (simp add: ipv6_disabled_def example_build_def)
  note J = ipv6_disabled_no_v6_calls [where b = ?b and bk = example_backend and lineno = 1
      and gstr = "''ff02::1''" and ifn = "''eth0''" and s_opt = None, THEN mp, OF dis]
  note A = ipv6_disabled_no_v6_calls [where b = ?b and bk = example_backend and lineno = 2
      and gstr = "''ff02::1''" and ifn = "''eth0''" and s_opt = "Some ''2001:db8::1''"
      and outbound = "[''eth1'']", THEN mp, OF dis]
  note F = ipv6_disabled_no_v6_calls [where b = ?b and world = ?w and sys = example_os
      and path = "''v6.conf''" and do_vifs = 0 and trace = "[]", THEN mp, OF dis]
  have h1: "strchr ''ff02::1'' CHR '':''" by (simp add: strchr_def)
  have h2: "strchr ''ff02::1'' CHR '':'' \<and> [''eth1''] \<noteq> []" by (simp add: strchr_def)
  have h3: "fopen_ok example_os ''v6.conf'' \<and> malloc_ok example_os
      \<and> (\<forall>l \<in> set (file_lines (contents example_os ''v6.conf'')). length (tokens (Some l)) \<le> 32)"
    using ex_v6_tokens by (simp add: example_os_def)
  have j: "join_mgroup ?b example_backend 1 (Some ''eth0'') None (Some ''ff02::1'') =
       (0, [WARN 1 Ignored_IPv6_disabled])"
    by (rule J [THEN conjunct1, THEN mp, OF h1])
  have a: "add_mroute ?b example_backend 2 (Some ''eth0'') (Some ''ff02::1'')
       (Some ''2001:db8::1'') [''eth1''] = (0, [WARN 2 Ignored_IPv6_disabled])"
    by (rule A [THEN conjunct2, THEN conjunct1, THEN mp, OF h2])
  have f: "\<exists>new. conf_parse ?b ?w example_os ''v6.conf'' 0 [] = Inr (0, [] @ new)
          \<and> (\<forall>i g m. Call (mcgroup6_join i g) \<notin> set new \<and> Call (mroute6_add m) \<notin> set new)"
    by (rule F [THEN conjunct2, THEN conjunct2, THEN conjunct2, THEN conjunct2, THEN conjunct2,
                THEN mp, OF h3])
  from dis j a ex_v6_parse f show ?thesis by (intro conjI)
qed

subsection \<open>Keywords on any directive\<close>



end
